theory Spec2Isabelle
  imports Complex_Main "HOL-Library.AList"
begin

section \<open>Configuration (internal/config/config.go)\<close>

text \<open>
  Only the \<open>Broadcast\<close> part of \<open>Config\<close> is read by the broadcast manager.
  Go's \<open>int\<close> is modelled as \<open>int\<close>; the counters of this program are bounded by the
  length of a recipient list, so wrap-around plays no role.
\<close>

record BroadcastConfig =
  RateLimit :: int
  DelayMS :: int
  MaxRecipients :: int

text \<open>
  \<open>getEnvInt\<close>: the environment (\<open>os.Getenv\<close>, which yields the empty string for an
  unset variable) and \<open>strconv.Atoi\<close> are parameters. Any integer that parses is taken
  as it is; there is no range check.
\<close>

definition getEnvInt :: "(string \<Rightarrow> string) \<Rightarrow> (string \<Rightarrow> int option) \<Rightarrow> string \<Rightarrow> int \<Rightarrow> int" where
  "getEnvInt Getenv Atoi key defaultValue =
     (let v = Getenv key in
      if v \<noteq> [] then (case Atoi v of Some parsed \<Rightarrow> parsed | None \<Rightarrow> defaultValue)
      else defaultValue)"

definition Load :: "(string \<Rightarrow> string) \<Rightarrow> (string \<Rightarrow> int option) \<Rightarrow> BroadcastConfig" where
  "Load Getenv Atoi =
     \<lparr>RateLimit = getEnvInt Getenv Atoi ''BROADCAST_RATE_LIMIT'' 10,
      DelayMS = getEnvInt Getenv Atoi ''BROADCAST_DELAY_MS'' 1000,
      MaxRecipients = getEnvInt Getenv Atoi ''BROADCAST_MAX_RECIPIENTS'' 100\<rparr>"

section \<open>Persisted records (internal/database/database.go)\<close>

text \<open>
  The fields that internal/broadcast/broadcast.go reads or writes. Identifiers (\<open>uint\<close>)
  are natural numbers; a \<open>*time.Time\<close> is an optional instant, an instant is a number of
  nanoseconds.
\<close>

record BroadcastRecipient =
  JID :: string
  IsActive :: bool

record BroadcastList =
  IsActive :: bool
  Recipients :: "BroadcastRecipient list"

record BroadcastMessage =
  ID :: nat
  BroadcastListID :: nat
  MessageType :: string
  Content :: string
  MediaURL :: string
  Status :: string
  SentCount :: int
  FailedCount :: int
  TotalRecipients :: int
  StartedAt :: "int option"
  CompletedAt :: "int option"
  CreatedAt :: int

text \<open>
  The database: two tables keyed by primary key, and the auto-increment sequence of the
  message table. Input/output failures of the database are outside the model: a lookup
  fails exactly when no row has the key.
\<close>

record DB =
  broadcast_lists :: "nat \<rightharpoonup> BroadcastList"
  broadcast_messages :: "nat \<rightharpoonup> BroadcastMessage"
  next_id :: nat

text \<open>\<open>db.Create(broadcastMsg)\<close>: the row gets the next primary key and its creation time.\<close>

definition Create :: "BroadcastMessage \<Rightarrow> int \<Rightarrow> DB \<Rightarrow> nat \<times> DB" where
  "Create msg now d =
     (let k = next_id d in
      (k, d\<lparr>broadcast_messages :=
               (broadcast_messages d)(k \<mapsto> msg\<lparr>BroadcastMessage.ID := k, CreatedAt := now\<rparr>),
             next_id := Suc k\<rparr>))"

text \<open>\<open>db.Save(&broadcastMsg)\<close>: every column of the row with the record's key is overwritten.\<close>

definition Save :: "BroadcastMessage \<Rightarrow> DB \<Rightarrow> DB" where
  "Save msg d = d\<lparr>broadcast_messages := (broadcast_messages d)(BroadcastMessage.ID msg \<mapsto> msg)\<rparr>"

text \<open>
  \<open>db.Model(&BroadcastMessage{}).Where("id = ?", k).Updates(...)\<close>: only the named
  columns of the matching row change; nothing happens when no row matches.
\<close>

definition Updates :: "nat \<Rightarrow> (BroadcastMessage \<Rightarrow> BroadcastMessage) \<Rightarrow> DB \<Rightarrow> DB" where
  "Updates k cols d =
     (case broadcast_messages d k of
        None \<Rightarrow> d
      | Some row \<Rightarrow> d\<lparr>broadcast_messages := (broadcast_messages d)(k \<mapsto> cols row)\<rparr>)"

section \<open>Types of internal/broadcast/broadcast.go\<close>

text \<open>The channel \<open>cancel\<close> has capacity one: it is empty or holds one value.\<close>

record BroadcastJob =
  ID :: nat
  BroadcastListID :: nat
  MessageType :: string
  Content :: string
  MediaURL :: string
  Recipients :: "string list"
  Status :: string
  SentCount :: int
  FailedCount :: int
  TotalRecipients :: int
  StartedAt :: "int option"
  CompletedAt :: "int option"
  cancel :: "bool option"

record BroadcastRequest =
  BroadcastListID :: nat
  MessageType :: string
  Content :: string
  MediaURL :: string
  ScheduledAt :: string

text \<open>\<open>EstimatedTime\<close> is kept as the duration in nanoseconds, not as its rendering.\<close>

record BroadcastResponse =
  Success :: bool
  BroadcastID :: nat
  Message :: string
  TotalRecipients :: int
  EstimatedTime :: int

text \<open>
  A \<open>float64\<close> is a number, an infinity or not a number. Numbers are computed
  exactly (rounding is not modelled). Dividing by zero does not fault in Go and does
  not give a number: zero by zero is NaN, anything else by zero is an infinity.
\<close>

datatype float64 = Num real | PosInf | NegInf | NaN

definition float64_of_int :: "int \<Rightarrow> float64" where
  "float64_of_int i = Num (real_of_int i)"

fun fdiv :: "float64 \<Rightarrow> float64 \<Rightarrow> float64" where
  "fdiv (Num a) (Num b) =
     (if b = 0 then (if a = 0 then NaN else if 0 < a then PosInf else NegInf)
      else Num (a / b))"
| "fdiv NaN y = NaN"
| "fdiv x NaN = NaN"
| "fdiv (Num a) PosInf = Num 0"
| "fdiv (Num a) NegInf = Num 0"
| "fdiv PosInf (Num b) = (if 0 \<le> b then PosInf else NegInf)"
| "fdiv NegInf (Num b) = (if 0 \<le> b then NegInf else PosInf)"
| "fdiv PosInf y = NaN"
| "fdiv NegInf y = NaN"

fun fmul :: "float64 \<Rightarrow> float64 \<Rightarrow> float64" where
  "fmul (Num a) (Num b) = Num (a * b)"
| "fmul NaN y = NaN"
| "fmul x NaN = NaN"
| "fmul PosInf (Num b) = (if b = 0 then NaN else if 0 < b then PosInf else NegInf)"
| "fmul NegInf (Num b) = (if b = 0 then NaN else if 0 < b then NegInf else PosInf)"
| "fmul (Num a) PosInf = (if a = 0 then NaN else if 0 < a then PosInf else NegInf)"
| "fmul (Num a) NegInf = (if a = 0 then NaN else if 0 < a then NegInf else PosInf)"
| "fmul PosInf PosInf = PosInf"
| "fmul PosInf NegInf = NegInf"
| "fmul NegInf PosInf = NegInf"
| "fmul NegInf NegInf = PosInf"

record BroadcastStatus =
  ID :: nat
  BroadcastListID :: nat
  Status :: string
  SentCount :: int
  FailedCount :: int
  TotalRecipients :: int
  Progress :: float64
  StartedAt :: "int option"
  CompletedAt :: "int option"
  CreatedAt :: int

record MediaMessageRequest =
  To :: string
  MediaURL :: string
  Type :: string
  Caption :: string

text \<open>
  The errors the manager returns: \<open>NotFound\<close> is the error of \<open>db.First\<close>,
  \<open>InactiveList\<close> is "broadcast list is not active", \<open>NoRecipients\<close> is
  "no active recipients", \<open>TooManyRecipients\<close> is "too many recipients" and
  \<open>NotActive\<close> is "broadcast not found or not active".
\<close>

datatype error = NotFound | InactiveList | NoRecipients | TooManyRecipients | NotActive

text \<open>What a dispatch loop does to the outside, in the order it happens.\<close>

datatype event =
    Send nat string bool int
  | WindowWait nat int int
  | Delay nat int

text \<open>
  \<open>Send k jid ok t\<close>: the loop of job \<open>k\<close> called the transport for \<open>jid\<close> at instant
  \<open>t\<close>, and \<open>ok\<close> tells whether the call returned without error.
  \<open>WindowWait k d t\<close>: the loop of job \<open>k\<close> took the rate-limit branch, slept \<open>d\<close>
  nanoseconds there and started a new window at instant \<open>t\<close>.
  \<open>Delay k d\<close>: it slept the inter-message delay \<open>d\<close>.
\<close>

section \<open>The manager and the running process\<close>

text \<open>
  \<open>active\<close> maps a broadcast id to a pointer to its \<open>BroadcastJob\<close>; the jobs themselves
  live in \<open>heap\<close>, so that a write through the pointer held by the dispatch loop is seen
  through the registry, and the job outlives its removal from the registry.
\<close>

record Manager =
  cfg :: BroadcastConfig
  db :: DB
  active :: "(nat \<times> nat) list"

record world = Manager +
  heap :: "nat \<Rightarrow> BroadcastJob"
  next_ptr :: nat
  clock :: int
  goroutines :: "(nat \<times> BroadcastRecipient list) list"
  log :: "event list"

text \<open>
  \<open>clock\<close> is the current instant, in nanoseconds: time passes while a goroutine
  sleeps and while a call of the transport is under way. \<open>goroutines\<close> holds the
  calls \<open>go m.executeBroadcast(id, recipients)\<close> that have been started and have not
  run yet. \<open>log\<close> records what the loops do to the outside; nothing reads it.

  The transport (package whatsapp) and the other goroutines are the environment of a
  dispatch loop. For the \<open>i\<close>-th iteration of the loop, \<open>SendTextMessage env i\<close> and
  \<open>SendMediaMessage env i\<close> tell whether the call returns without error and how long
  it takes, and \<open>cancel_requested env i\<close> tells whether a request handler calls
  \<open>CancelBroadcast\<close> for this job between the previous poll of the channel and the
  \<open>i\<close>-th one (for \<open>i\<close> the number of recipients: after the last poll and before the
  job leaves the registry).
\<close>

record Env =
  SendTextMessage :: "nat \<Rightarrow> string \<Rightarrow> string \<Rightarrow> bool \<times> nat"
  SendMediaMessage :: "nat \<Rightarrow> MediaMessageRequest \<Rightarrow> bool \<times> nat"
  cancel_requested :: "nat \<Rightarrow> bool"

definition Millisecond :: int where
  "Millisecond = 1000000"

definition Minute :: int where
  "Minute = 60000000000"

text \<open>\<open>time.Sleep(d)\<close> returns at once when \<open>d\<close> is not positive.\<close>

definition Sleep :: "int \<Rightarrow> world \<Rightarrow> world" where
  "Sleep d w = w\<lparr>clock := clock w + max 0 d\<rparr>"

text \<open>
  \<open>NewManager\<close> has no error result in the source and cannot panic; the sum type only
  makes a rejection expressible. The transport is not a field of the model's manager:
  it is the environment of the loops.
\<close>

definition NewManager :: "BroadcastConfig \<Rightarrow> DB \<Rightarrow> error + Manager" where
  "NewManager c d = Inr \<lparr>cfg = c, db = d, active = []\<rparr>"

section \<open>Creating a broadcast\<close>

definition failure :: "string \<Rightarrow> BroadcastResponse" where
  "failure msg =
     \<lparr>Success = False, BroadcastID = 0, Message = msg, TotalRecipients = 0, EstimatedTime = 0\<rparr>"

text \<open>
  \<open>CreateBroadcast\<close> returns the response and the error, as the source does. The number
  in the message of the fourth failure is not rendered.
\<close>

definition CreateBroadcast ::
  "BroadcastRequest \<Rightarrow> world \<Rightarrow> (BroadcastResponse \<times> error option) \<times> world" where
  "CreateBroadcast req w =
     (case broadcast_lists (db w) (BroadcastRequest.BroadcastListID req) of
        None \<Rightarrow> ((failure ''Broadcast list not found'', Some NotFound), w)
      | Some broadcastList \<Rightarrow>
          if \<not> BroadcastList.IsActive broadcastList
          then ((failure ''Broadcast list is not active'', Some InactiveList), w)
          else
            let activeRecipients =
                  filter BroadcastRecipient.IsActive (BroadcastList.Recipients broadcastList)
            in
            if length activeRecipients = 0
            then ((failure ''No active recipients found'', Some NoRecipients), w)
            else if int (length activeRecipients) > MaxRecipients (cfg w)
            then ((failure ''Too many recipients. Maximum allowed: %d'', Some TooManyRecipients), w)
            else
              let broadcastMsg =
                    \<lparr>BroadcastMessage.ID = 0,
                     BroadcastListID = BroadcastRequest.BroadcastListID req,
                     MessageType = BroadcastRequest.MessageType req,
                     Content = BroadcastRequest.Content req,
                     MediaURL = BroadcastRequest.MediaURL req,
                     Status = ''pending'',
                     SentCount = 0,
                     FailedCount = 0,
                     TotalRecipients = int (length activeRecipients),
                     StartedAt = None,
                     CompletedAt = None,
                     CreatedAt = 0\<rparr>;
                  (k, d) = Create broadcastMsg (clock w) (db w);
                  w1 = w\<lparr>db := d\<rparr>;
                  delayMs = DelayMS (cfg w) * Millisecond;
                  estimatedTime = int (length activeRecipients) * delayMs;
                  w2 = (if ScheduledAt req = []
                        then w1\<lparr>goroutines := goroutines w1 @ [(k, activeRecipients)]\<rparr>
                        else w1)
              in ((\<lparr>Success = True, BroadcastID = k, Message = ''Broadcast created successfully'',
                     TotalRecipients = int (length activeRecipients),
                     EstimatedTime = estimatedTime\<rparr>, None), w2))"

section \<open>Cancelling and querying\<close>

text \<open>
  \<open>CancelBroadcast\<close>: the send on the channel does not block; when the channel is full
  the \<open>default\<close> branch is taken. The status column is then updated in either case.
\<close>

definition CancelBroadcast :: "nat \<Rightarrow> world \<Rightarrow> error option \<times> world" where
  "CancelBroadcast broadcastID w =
     (case map_of (active w) broadcastID of
        None \<Rightarrow> (Some NotActive, w)
      | Some job \<Rightarrow>
          let w1 = (case cancel (heap w job) of
                      None \<Rightarrow> w\<lparr>heap := (heap w)(job := (heap w job)\<lparr>cancel := Some True\<rparr>)\<rparr>
                    | Some _ \<Rightarrow> w)
          in (None,
              w1\<lparr>db := Updates broadcastID
                          (\<lambda>row. row\<lparr>BroadcastMessage.Status := ''cancelled''\<rparr>) (db w1)\<rparr>))"

definition GetBroadcastStatus :: "nat \<Rightarrow> world \<Rightarrow> error + BroadcastStatus" where
  "GetBroadcastStatus broadcastID w =
     (case broadcast_messages (db w) broadcastID of
        None \<Rightarrow> Inl NotFound
      | Some broadcastMsg \<Rightarrow>
          let progress =
                (if BroadcastMessage.TotalRecipients broadcastMsg > 0
                 then fmul (fdiv (float64_of_int (BroadcastMessage.SentCount broadcastMsg
                                                   + BroadcastMessage.FailedCount broadcastMsg))
                                 (float64_of_int (BroadcastMessage.TotalRecipients broadcastMsg)))
                           (Num 100)
                 else float64_of_int 0)
          in Inr \<lparr>BroadcastStatus.ID = BroadcastMessage.ID broadcastMsg,
                  BroadcastListID = BroadcastMessage.BroadcastListID broadcastMsg,
                  Status = BroadcastMessage.Status broadcastMsg,
                  SentCount = BroadcastMessage.SentCount broadcastMsg,
                  FailedCount = BroadcastMessage.FailedCount broadcastMsg,
                  TotalRecipients = BroadcastMessage.TotalRecipients broadcastMsg,
                  Progress = progress,
                  StartedAt = BroadcastMessage.StartedAt broadcastMsg,
                  CompletedAt = BroadcastMessage.CompletedAt broadcastMsg,
                  CreatedAt = BroadcastMessage.CreatedAt broadcastMsg\<rparr>)"


section \<open>The dispatch loop\<close>

text \<open>The locals of \<open>sendToRecipients\<close> that the loop changes.\<close>

record frame =
  sentInWindow :: int
  windowStart :: int

text \<open>A request to cancel this job that arrives before the \<open>i\<close>-th poll.\<close>

definition interleave :: "Env \<Rightarrow> nat \<Rightarrow> nat \<Rightarrow> world \<Rightarrow> world" where
  "interleave env job i w =
     (if cancel_requested env i then snd (CancelBroadcast (BroadcastJob.ID (heap w job)) w) else w)"

text \<open>
  The rate-limit branch: entered when the counter has reached the limit; it sleeps
  for the rest of the minute that began at \<open>windowStart\<close>, if any is left, and starts
  a new window.
\<close>

definition rate_limiting :: "nat \<Rightarrow> frame \<Rightarrow> world \<Rightarrow> frame \<times> world" where
  "rate_limiting job fr w =
     (let rateLimit = RateLimit (cfg w) in
      if sentInWindow fr \<ge> rateLimit
      then
        let elapsed = clock w - windowStart fr;
            d = (if elapsed < Minute then Minute - elapsed else 0);
            w1 = (if elapsed < Minute then Sleep (Minute - elapsed) w else w);
            w2 = w1\<lparr>log := log w1 @ [WindowWait (BroadcastJob.ID (heap w1 job)) d (clock w1)]\<rparr>
        in (\<lparr>sentInWindow = 0, windowStart = clock w2\<rparr>, w2)
      else (fr, w))"

text \<open>
  The \<open>switch\<close> on the message type: the result is whether \<open>err\<close> is \<open>nil\<close>, and the
  time the call took. An unsupported type is an error at once.
\<close>

definition send_message :: "Env \<Rightarrow> nat \<Rightarrow> BroadcastJob \<Rightarrow> string \<Rightarrow> bool \<times> nat" where
  "send_message env i j recipientJID =
     (if BroadcastJob.MessageType j = ''text''
      then SendTextMessage env i recipientJID (BroadcastJob.Content j)
      else if BroadcastJob.MessageType j \<in> set [''image'', ''document'', ''audio'', ''video'']
      then SendMediaMessage env i
             \<lparr>To = recipientJID, MediaURL = BroadcastJob.MediaURL j,
              Type = BroadcastJob.MessageType j, Caption = BroadcastJob.Content j\<rparr>
      else (False, 0))"

text \<open>Sending to one recipient and counting the outcome.\<close>

definition send_and_count :: "Env \<Rightarrow> nat \<Rightarrow> nat \<Rightarrow> string \<Rightarrow> frame \<Rightarrow> world \<Rightarrow> frame \<times> world" where
  "send_and_count env job i recipientJID fr w =
     (let j = heap w job;
          (ok, took) = send_message env i j recipientJID;
          w1 = w\<lparr>log := log w @ [Send (BroadcastJob.ID j) recipientJID ok (clock w)],
                 clock := clock w + int took\<rparr>
      in if \<not> ok
         then (fr, w1\<lparr>heap := (heap w1)(job := j\<lparr>BroadcastJob.FailedCount := BroadcastJob.FailedCount j + 1\<rparr>)\<rparr>)
         else (fr\<lparr>sentInWindow := sentInWindow fr + 1\<rparr>,
               w1\<lparr>heap := (heap w1)(job := j\<lparr>BroadcastJob.SentCount := BroadcastJob.SentCount j + 1\<rparr>)\<rparr>))"

text \<open>The progress flush, every tenth recipient and at the last one.\<close>

definition update_progress :: "nat \<Rightarrow> nat \<Rightarrow> nat \<Rightarrow> world \<Rightarrow> world" where
  "update_progress job n i w =
     (let j = heap w job in
      if (int i + 1) mod 10 = 0 \<or> int i = int n - 1
      then w\<lparr>db := Updates (BroadcastJob.ID j)
                     (\<lambda>row. row\<lparr>BroadcastMessage.SentCount := BroadcastJob.SentCount j,
                                 BroadcastMessage.FailedCount := BroadcastJob.FailedCount j\<rparr>)
                     (db w)\<rparr>
      else w)"

text \<open>The delay between two messages.\<close>

definition delay_between :: "nat \<Rightarrow> nat \<Rightarrow> nat \<Rightarrow> world \<Rightarrow> world" where
  "delay_between job n i w =
     (let delayMs = DelayMS (cfg w) * Millisecond in
      if int i < int n - 1
      then (Sleep delayMs w)\<lparr>log := log w @ [Delay (BroadcastJob.ID (heap w job)) delayMs]\<rparr>
      else w)"

text \<open>
  The body of the loop \<open>for i, recipientJID := range job.Recipients\<close> after the poll
  of the channel: rate limiting, the send, the counters, the progress flush and the
  delay; \<open>n\<close> is \<open>len(job.Recipients)\<close>.
\<close>

definition iteration ::
  "Env \<Rightarrow> nat \<Rightarrow> nat \<Rightarrow> nat \<Rightarrow> string \<Rightarrow> frame \<Rightarrow> world \<Rightarrow> frame \<times> world" where
  "iteration env job n i recipientJID fr w =
     (let (fr1, w1) = rate_limiting job fr w;
          (fr2, w2) = send_and_count env job i recipientJID fr1 w1;
          w3 = update_progress job n i w2;
          w4 = delay_between job n i w3
      in (fr2, w4))"

text \<open>
  The loop from index \<open>i\<close> on, over the recipients that are left. When the poll finds
  a value in the channel, the value is taken out and the function returns.
\<close>

fun range_Recipients ::
  "Env \<Rightarrow> nat \<Rightarrow> nat \<Rightarrow> nat \<Rightarrow> string list \<Rightarrow> frame \<Rightarrow> world \<Rightarrow> frame \<times> world" where
  "range_Recipients env job n i [] fr w = (fr, w)"
| "range_Recipients env job n i (recipientJID # rest) fr w =
     (let w0 = interleave env job i w in
      case cancel (heap w0 job) of
        Some _ \<Rightarrow> (fr, w0\<lparr>heap := (heap w0)(job := (heap w0 job)\<lparr>cancel := None\<rparr>)\<rparr>)
      | None \<Rightarrow>
          let (fr', w') = iteration env job n i recipientJID fr w0
          in range_Recipients env job n (Suc i) rest fr' w')"

definition sendToRecipients :: "Env \<Rightarrow> nat \<Rightarrow> world \<Rightarrow> world" where
  "sendToRecipients env job w =
     (let recipients = BroadcastJob.Recipients (heap w job) in
      snd (range_Recipients env job (length recipients) 0 recipients
             \<lparr>sentInWindow = 0, windowStart = clock w\<rparr> w))"

text \<open>
  The loop seen from outside while it runs: the locals and the world when the first
  \<open>k\<close> recipients have been gone through (or the loop has returned before).
\<close>

definition loop_after :: "nat \<Rightarrow> Env \<Rightarrow> nat \<Rightarrow> world \<Rightarrow> frame \<times> world" where
  "loop_after k env job w =
     (let recipients = BroadcastJob.Recipients (heap w job) in
      range_Recipients env job (length recipients) 0 (take k recipients)
        \<lparr>sentInWindow = 0, windowStart = clock w\<rparr> w)"

section \<open>Executing a broadcast\<close>

text \<open>
  \<open>executeBroadcast\<close> up to the call of \<open>sendToRecipients\<close>: the result is the pointer to
  the new job and the local copy \<open>broadcastMsg\<close> of the row, or nothing when the row is
  not found.
\<close>

definition executeBroadcast_begin ::
  "nat \<Rightarrow> BroadcastRecipient list \<Rightarrow> world \<Rightarrow> (nat \<times> BroadcastMessage \<times> world) option" where
  "executeBroadcast_begin broadcastID recipients w =
     (case broadcast_messages (db w) broadcastID of
        None \<Rightarrow> None
      | Some row \<Rightarrow>
          let now = clock w;
              broadcastMsg = row\<lparr>BroadcastMessage.Status := ''sending'',
                                 BroadcastMessage.StartedAt := Some now\<rparr>;
              w1 = w\<lparr>db := Save broadcastMsg (db w)\<rparr>;
              j = \<lparr>BroadcastJob.ID = BroadcastMessage.ID broadcastMsg,
                   BroadcastListID = BroadcastMessage.BroadcastListID broadcastMsg,
                   MessageType = BroadcastMessage.MessageType broadcastMsg,
                   Content = BroadcastMessage.Content broadcastMsg,
                   MediaURL = BroadcastMessage.MediaURL broadcastMsg,
                   Recipients = map JID recipients,
                   Status = ''sending'',
                   SentCount = 0,
                   FailedCount = 0,
                   TotalRecipients = int (length recipients),
                   StartedAt = Some now,
                   CompletedAt = None,
                   cancel = None\<rparr>;
              job = next_ptr w1;
              w2 = w1\<lparr>heap := (heap w1)(job := j), next_ptr := Suc job\<rparr>;
              w3 = w2\<lparr>active := AList.update broadcastID job (active w2)\<rparr>
          in Some (job, broadcastMsg, w3))"

text \<open>\<open>executeBroadcast\<close> after the call of \<open>sendToRecipients\<close> has returned.\<close>

definition executeBroadcast_end :: "nat \<Rightarrow> nat \<Rightarrow> BroadcastMessage \<Rightarrow> world \<Rightarrow> world" where
  "executeBroadcast_end broadcastID job broadcastMsg w =
     (let w1 = w\<lparr>active := AList.delete broadcastID (active w)\<rparr>;
          completedAt = clock w1;
          j = heap w1 job;
          broadcastMsg' = broadcastMsg\<lparr>BroadcastMessage.Status := ''completed'',
                                       BroadcastMessage.SentCount := BroadcastJob.SentCount j,
                                       BroadcastMessage.FailedCount := BroadcastJob.FailedCount j,
                                       BroadcastMessage.CompletedAt := Some completedAt\<rparr>
      in w1\<lparr>db := Save broadcastMsg' (db w1)\<rparr>)"

definition executeBroadcast :: "Env \<Rightarrow> nat \<Rightarrow> BroadcastRecipient list \<Rightarrow> world \<Rightarrow> world" where
  "executeBroadcast env broadcastID recipients w =
     (case executeBroadcast_begin broadcastID recipients w of
        None \<Rightarrow> w
      | Some (job, broadcastMsg, w3) \<Rightarrow>
          let w4 = sendToRecipients env job w3;
              w5 = interleave env job (length recipients) w4
          in executeBroadcast_end broadcastID job broadcastMsg w5)"

section \<open>Reading the log\<close>

text \<open>The recipients the loop of job \<open>k\<close> called the transport for, with the outcomes.\<close>

fun attempts :: "nat \<Rightarrow> event list \<Rightarrow> (string \<times> bool) list" where
  "attempts k [] = []"
| "attempts k (Send k' jid ok t # es) =
     (if k' = k then (jid, ok) # attempts k es else attempts k es)"
| "attempts k (WindowWait k' d t # es) = attempts k es"
| "attempts k (Delay k' d # es) = attempts k es"

text \<open>
  What the transport answers to the calls of a loop that goes through \<open>rs\<close> from index
  \<open>i\<close> on: one outcome for each recipient.
\<close>

fun outcomes :: "Env \<Rightarrow> BroadcastJob \<Rightarrow> nat \<Rightarrow> string list \<Rightarrow> bool list" where
  "outcomes env j i [] = []"
| "outcomes env j i (recipientJID # rest) =
     fst (send_message env i j recipientJID) # outcomes env j (Suc i) rest"


text \<open>The number of calls of the transport, by any job, from instant \<open>t0\<close> to before \<open>t1\<close>.\<close>

fun sends_in :: "int \<Rightarrow> int \<Rightarrow> event list \<Rightarrow> nat" where
  "sends_in t0 t1 [] = 0"
| "sends_in t0 t1 (Send k jid ok t # es) =
     (if t0 \<le> t \<and> t < t1 then Suc (sends_in t0 t1 es) else sends_in t0 t1 es)"
| "sends_in t0 t1 (WindowWait k d t # es) = sends_in t0 t1 es"
| "sends_in t0 t1 (Delay k d # es) = sends_in t0 t1 es"

text \<open>
  A fixed-window limiter, read off the events of the loop of job \<open>k\<close>: \<open>c\<close> successful
  sends have been counted in the window that started at \<open>ws\<close>; no send is made before
  its window starts, no window holds more than \<open>R\<close> successful sends, and a new window
  starts at least a minute after the one before.
\<close>

fun fixed_window :: "nat \<Rightarrow> int \<Rightarrow> int \<Rightarrow> int \<Rightarrow> event list \<Rightarrow> bool" where
  "fixed_window k R c ws [] = True"
| "fixed_window k R c ws (Send k' jid ok t # es) =
     (if k' = k
      then ws \<le> t \<and> (if ok then c + 1 \<le> R \<and> fixed_window k R (c + 1) ws es
                      else fixed_window k R c ws es)
      else fixed_window k R c ws es)"
| "fixed_window k R c ws (WindowWait k' d t # es) =
     (if k' = k then ws + Minute \<le> t \<and> fixed_window k R 0 t es
      else fixed_window k R c ws es)"
| "fixed_window k R c ws (Delay k' d # es) = fixed_window k R c ws es"


text \<open>Two jobs carry the same message when they differ in the counters and the channel only.\<close>

definition same_message :: "BroadcastJob \<Rightarrow> BroadcastJob \<Rightarrow> bool" where
  "same_message j j' \<longleftrightarrow>
     BroadcastJob.ID j' = BroadcastJob.ID j
     \<and> BroadcastJob.MessageType j' = BroadcastJob.MessageType j
     \<and> BroadcastJob.Content j' = BroadcastJob.Content j
     \<and> BroadcastJob.MediaURL j' = BroadcastJob.MediaURL j
     \<and> BroadcastJob.TotalRecipients j' = BroadcastJob.TotalRecipients j
     \<and> BroadcastJob.Recipients j' = BroadcastJob.Recipients j"

section \<open>Executions\<close>

text \<open>The job an event belongs to.\<close>

fun event_job :: "event \<Rightarrow> nat" where
  "event_job (Send k jid ok t) = k"
| "event_job (WindowWait k d t) = k"
| "event_job (Delay k d) = k"

text \<open>
  What the manager does, one call at a time: a request handler creates a broadcast, a
  started goroutine runs \<open>executeBroadcast\<close> (with any environment), or a request
  handler cancels a broadcast. A call of \<open>CancelBroadcast\<close> that arrives while a loop
  runs is part of the environment of that loop.
\<close>

inductive step :: "world \<Rightarrow> world \<Rightarrow> bool" where
  create: "step w (snd (CreateBroadcast req w))"
| run: "goroutines w = before @ (k, recipients) # rest \<Longrightarrow>
        step w (executeBroadcast env k recipients (w\<lparr>goroutines := before @ rest\<rparr>))"
| cancel: "step w (snd (CancelBroadcast k w))"

text \<open>
  A consistent world: every row is stored under its own id, and the ids of the rows,
  of the started goroutines, of the registry and of the log have all been handed out
  by the database already.
\<close>

definition consistent :: "world \<Rightarrow> bool" where
  "consistent w \<longleftrightarrow>
     (\<forall>k row. broadcast_messages (db w) k = Some row \<longrightarrow>
        k < next_id (db w) \<and> BroadcastMessage.ID row = k)
     \<and> (\<forall>x \<in> set (goroutines w). fst x < next_id (db w))
     \<and> (\<forall>x \<in> set (active w). fst x < next_id (db w))
     \<and> (\<forall>e \<in> set (log w). event_job e < next_id (db w))"

text \<open>
  A broadcast \<open>k\<close> that is persisted as pending and that nothing is going to run: no
  goroutine has been started for it, it is not registered, and the log has no send
  for it.
\<close>

definition untouched :: "nat \<Rightarrow> world \<Rightarrow> bool" where
  "untouched k w \<longleftrightarrow>
     (\<exists>row. broadcast_messages (db w) k = Some row \<and> BroadcastMessage.Status row = ''pending'')
     \<and> k < next_id (db w)
     \<and> (\<forall>k' row. broadcast_messages (db w) k' = Some row \<longrightarrow> BroadcastMessage.ID row = k')
     \<and> k \<notin> fst ` set (goroutines w)
     \<and> map_of (active w) k = None
     \<and> attempts k (log w) = []"

text \<open>
  The footprint of the work on job \<open>K\<close>: in the database only row \<open>K\<close> may change,
  and no row changes its id or appears or disappears; the log only grows by events of
  job \<open>K\<close>.
\<close>

definition db_touch :: "nat \<Rightarrow> DB \<Rightarrow> DB \<Rightarrow> bool" where
  "db_touch K d d' \<longleftrightarrow>
     next_id d' = next_id d \<and> broadcast_lists d' = broadcast_lists d
     \<and> (\<forall>k. rel_option (\<lambda>r r'. BroadcastMessage.ID r' = BroadcastMessage.ID r \<and> (k \<noteq> K \<longrightarrow> r' = r))
             (broadcast_messages d k) (broadcast_messages d' k))"

definition log_touch :: "nat \<Rightarrow> event list \<Rightarrow> event list \<Rightarrow> bool" where
  "log_touch K l l' \<longleftrightarrow> (\<exists>evs. l' = l @ evs \<and> (\<forall>e \<in> set evs. event_job e = K))"

definition touch :: "nat \<Rightarrow> world \<Rightarrow> world \<Rightarrow> bool" where
  "touch K w w' \<longleftrightarrow>
     db_touch K (db w) (db w') \<and> log_touch K (log w) (log w')
     \<and> goroutines w' = goroutines w \<and> active w' = active w \<and> cfg w' = cfg w"

section \<open>Example inputs\<close>

definition null_job :: BroadcastJob where
  "null_job =
     \<lparr>BroadcastJob.ID = 0, BroadcastListID = 0, MessageType = [], Content = [], MediaURL = [],
      Recipients = [], Status = [], SentCount = 0, FailedCount = 0, TotalRecipients = 0,
      StartedAt = None, CompletedAt = None, cancel = None\<rparr>"

definition cfg0 :: BroadcastConfig where
  "cfg0 = \<lparr>RateLimit = 10, DelayMS = 1000, MaxRecipients = 100\<rparr>"

definition recipient :: "string \<Rightarrow> BroadcastRecipient" where
  "recipient jid = \<lparr>JID = jid, IsActive = True\<rparr>"

definition abc :: "BroadcastRecipient list" where
  "abc = [recipient ''A'', recipient ''B'', recipient ''C'']"

text \<open>
  A database with four recipient lists: list 1 holds A, B and C; list 2 is inactive;
  list 3 is active and its only recipient is inactive; list 4 holds 150 recipients.
\<close>

definition db0 :: DB where
  "db0 =
     \<lparr>broadcast_lists =
        [1 \<mapsto> \<lparr>IsActive = True, Recipients = abc\<rparr>,
         2 \<mapsto> \<lparr>IsActive = False, Recipients = abc\<rparr>,
         3 \<mapsto> \<lparr>IsActive = True, Recipients = [\<lparr>JID = ''D'', IsActive = False\<rparr>]\<rparr>,
         4 \<mapsto> \<lparr>IsActive = True, Recipients = replicate 150 (recipient ''E'')\<rparr>],
      broadcast_messages = Map.empty,
      next_id = 1\<rparr>"

definition world0 :: world where
  "world0 =
     \<lparr>cfg = cfg0, db = db0, active = [], heap = (\<lambda>_. null_job), next_ptr = 0,
      clock = 0, goroutines = [], log = []\<rparr>"

definition request :: "nat \<Rightarrow> string \<Rightarrow> BroadcastRequest" where
  "request l sched =
     \<lparr>BroadcastRequest.BroadcastListID = l, MessageType = ''text'', Content = ''hi'',
      MediaURL = [], ScheduledAt = sched\<rparr>"

text \<open>Two environments without cancellation: every send succeeds; only B fails.\<close>

definition env_ok :: Env where
  "env_ok =
     \<lparr>SendTextMessage = (\<lambda>i to msg. (True, 0)),
      SendMediaMessage = (\<lambda>i r. (True, 0)),
      cancel_requested = (\<lambda>i. False)\<rparr>"

definition env_B_fails :: Env where
  "env_B_fails =
     \<lparr>SendTextMessage = (\<lambda>i to msg. (to \<noteq> ''B'', 0)),
      SendMediaMessage = (\<lambda>i r. (False, 0)),
      cancel_requested = (\<lambda>i. False)\<rparr>"

text \<open>Every send succeeds, and the job is cancelled when one recipient has been attempted.\<close>

definition env_cancel1 :: Env where
  "env_cancel1 =
     \<lparr>SendTextMessage = (\<lambda>i to msg. (True, 0)),
      SendMediaMessage = (\<lambda>i r. (True, 0)),
      cancel_requested = (\<lambda>i. i = 1)\<rparr>"

text \<open>The world after a broadcast to list 1 has been created.\<close>

definition world_created :: world where
  "world_created = snd (CreateBroadcast (request 1 []) world0)"

text \<open>
  The world while job 1 is running: the broadcast has been created and started, and its
  loop has gone through the first of the three recipients.
\<close>

definition world_sending :: world where
  "world_sending =
     (case executeBroadcast_begin 1 abc world_created of
        None \<Rightarrow> world_created
      | Some (job, msg, w3) \<Rightarrow> snd (loop_after 1 env_ok job w3))"

text \<open>
  The world when the loop of job 1 has returned because of a cancellation after the
  first recipient, before \<open>executeBroadcast\<close> goes on.
\<close>

definition world_loop_returned :: world where
  "world_loop_returned =
     (case executeBroadcast_begin 1 abc world_created of
        None \<Rightarrow> world_created
      | Some (job, msg, w3) \<Rightarrow> sendToRecipients env_cancel1 job w3)"

text \<open>
  Environments that set the rate limit to 0 and to -5, and a parser for these two
  values.
\<close>

definition getenv_zero_rate :: "string \<Rightarrow> string" where
  "getenv_zero_rate key = (if key = ''BROADCAST_RATE_LIMIT'' then ''0'' else [])"

definition getenv_negative_rate :: "string \<Rightarrow> string" where
  "getenv_negative_rate key = (if key = ''BROADCAST_RATE_LIMIT'' then ''-5'' else [])"

definition atoi_example :: "string \<Rightarrow> int option" where
  "atoi_example v = (if v = ''0'' then Some 0 else if v = ''-5'' then Some (- 5) else None)"




definition cfg_rate1 :: BroadcastConfig where
  "cfg_rate1 = \<lparr>RateLimit = 1, DelayMS = 1000, MaxRecipients = 100\<rparr>"




text \<open>The world when job 1 has been started and its loop is about to be entered.\<close>

definition world_started :: world where
  "world_started =
     (case executeBroadcast_begin 1 abc world_created of
        None \<Rightarrow> world_created
      | Some (job, msg, w3) \<Rightarrow> w3)"

text \<open>
  With the rate limit 1: two broadcasts have been created and started, both are
  registered, and the loop of each has gone through its first recipient.
\<close>

definition world_two_jobs :: world where
  "world_two_jobs =
     (let w1 = snd (CreateBroadcast (request 1 []) (world_created\<lparr>cfg := cfg_rate1\<rparr>)) in
      case executeBroadcast_begin 1 abc w1 of
        None \<Rightarrow> w1
      | Some (job1, msg1, w2) \<Rightarrow>
          (case executeBroadcast_begin 2 abc w2 of
             None \<Rightarrow> w2
           | Some (job2, msg2, w3) \<Rightarrow>
               snd (loop_after 1 env_ok job2 (snd (loop_after 1 env_ok job1 w3)))))"

text \<open>
  A broadcast to list 1 is created with a schedule (job 1); later a second broadcast
  is created without one (job 2), its goroutine runs to the end, and a request to
  cancel job 1 arrives.
\<close>

definition world_scheduled :: world where
  "world_scheduled = snd (CreateBroadcast (request 1 ''2030-01-01T00:00:00Z'') world0)"

definition world_later :: world where
  "world_later =
     snd (CancelBroadcast 1
            (executeBroadcast env_ok 2 abc
               ((snd (CreateBroadcast (request 1 []) world_scheduled))\<lparr>goroutines := []\<rparr>)))"

section \<open>Properties\<close>

lemmas examples = null_job_def cfg0_def recipient_def abc_def db0_def world0_def request_def

subsection \<open>Effects of the parts of the loop\<close>

lemma attempts_append: "attempts k (xs @ ys) = attempts k xs @ attempts k ys"
  by (induction k xs rule: attempts.induct) auto


lemma send_message_cong:
  "BroadcastJob.MessageType j = BroadcastJob.MessageType j' \<Longrightarrow>
   BroadcastJob.Content j = BroadcastJob.Content j' \<Longrightarrow>
   BroadcastJob.MediaURL j = BroadcastJob.MediaURL j' \<Longrightarrow>
   send_message env i j r = send_message env i j' r"
  unfolding send_message_def by simp


lemma outcomes_cong:
  "BroadcastJob.MessageType j = BroadcastJob.MessageType j' \<Longrightarrow>
   BroadcastJob.Content j = BroadcastJob.Content j' \<Longrightarrow>
   BroadcastJob.MediaURL j = BroadcastJob.MediaURL j' \<Longrightarrow>
   outcomes env j i rs = outcomes env j' i rs"
proof (induction rs arbitrary: i)
  case Nil
  show ?case by simp
next
  case (Cons r rs)
  have "send_message env i j r = send_message env i j' r"
    using Cons.prems by (rule send_message_cong)
  with Cons show ?case by simp
qed

lemma CancelBroadcast_frame [simp]:
  "cfg (snd (CancelBroadcast k w)) = cfg w"
  "log (snd (CancelBroadcast k w)) = log w"
  "clock (snd (CancelBroadcast k w)) = clock w"
  "active (snd (CancelBroadcast k w)) = active w"
  "goroutines (snd (CancelBroadcast k w)) = goroutines w"
  "next_ptr (snd (CancelBroadcast k w)) = next_ptr w"
  by (simp_all add: CancelBroadcast_def Let_def split: option.splits)

lemma same_message_refl [simp]: "same_message j j"
  by (simp add: same_message_def)

lemma same_message_trans: "same_message a b \<Longrightarrow> same_message b c \<Longrightarrow> same_message a c"
  by (simp add: same_message_def)

lemma CancelBroadcast_same_message: "same_message (heap w p) (heap (snd (CancelBroadcast k w)) p)"
  by (simp add: CancelBroadcast_def same_message_def Let_def split: option.splits)

lemma interleave_frame [simp]:
  "cfg (interleave env job i w) = cfg w"
  "log (interleave env job i w) = log w"
  "clock (interleave env job i w) = clock w"
  "active (interleave env job i w) = active w"
  "goroutines (interleave env job i w) = goroutines w"
  "next_ptr (interleave env job i w) = next_ptr w"
  by (simp_all add: interleave_def)

lemma interleave_same_message: "same_message (heap w p) (heap (interleave env job i w) p)"
  by (simp add: interleave_def CancelBroadcast_same_message)

lemma rate_limiting_snd [simp]:
  "cfg (snd (rate_limiting job fr w)) = cfg w"
  "db (snd (rate_limiting job fr w)) = db w"
  "heap (snd (rate_limiting job fr w)) = heap w"
  "active (snd (rate_limiting job fr w)) = active w"
  "goroutines (snd (rate_limiting job fr w)) = goroutines w"
  "next_ptr (snd (rate_limiting job fr w)) = next_ptr w"
  "clock (snd (rate_limiting job fr w)) =
     (if sentInWindow fr \<ge> RateLimit (cfg w) then max (clock w) (windowStart fr + Minute)
      else clock w)"
  "log (snd (rate_limiting job fr w)) =
     log w @ (if sentInWindow fr \<ge> RateLimit (cfg w)
              then [WindowWait (BroadcastJob.ID (heap w job))
                      (if clock w - windowStart fr < Minute
                       then Minute - (clock w - windowStart fr) else 0)
                      (max (clock w) (windowStart fr + Minute))]
              else [])"
  by (simp_all add: rate_limiting_def Sleep_def Let_def max_def)

lemma rate_limiting_fst [simp]:
  "fst (rate_limiting job fr w) =
     (if sentInWindow fr \<ge> RateLimit (cfg w)
      then \<lparr>sentInWindow = 0, windowStart = max (clock w) (windowStart fr + Minute)\<rparr>
      else fr)"
  by (simp add: rate_limiting_def Sleep_def Let_def max_def)

lemma send_and_count_snd [simp]:
  "cfg (snd (send_and_count env job i r fr w)) = cfg w"
  "db (snd (send_and_count env job i r fr w)) = db w"
  "active (snd (send_and_count env job i r fr w)) = active w"
  "goroutines (snd (send_and_count env job i r fr w)) = goroutines w"
  "next_ptr (snd (send_and_count env job i r fr w)) = next_ptr w"
  "clock (snd (send_and_count env job i r fr w)) =
     clock w + int (snd (send_message env i (heap w job) r))"
  "log (snd (send_and_count env job i r fr w)) =
     log w @ [Send (BroadcastJob.ID (heap w job)) r (fst (send_message env i (heap w job) r))
                (clock w)]"
  "heap (snd (send_and_count env job i r fr w)) =
     (heap w)(job :=
        (if fst (send_message env i (heap w job) r)
         then (heap w job)\<lparr>BroadcastJob.SentCount := BroadcastJob.SentCount (heap w job) + 1\<rparr>
         else (heap w job)\<lparr>BroadcastJob.FailedCount := BroadcastJob.FailedCount (heap w job) + 1\<rparr>))"
  by (simp_all add: send_and_count_def Let_def case_prod_beta)

lemma send_and_count_fst [simp]:
  "fst (send_and_count env job i r fr w) =
     fr\<lparr>sentInWindow := sentInWindow fr + (if fst (send_message env i (heap w job) r) then 1 else 0)\<rparr>"
  by (simp add: send_and_count_def Let_def case_prod_beta)

lemma update_progress_frame [simp]:
  "cfg (update_progress job n i w) = cfg w"
  "heap (update_progress job n i w) = heap w"
  "active (update_progress job n i w) = active w"
  "goroutines (update_progress job n i w) = goroutines w"
  "next_ptr (update_progress job n i w) = next_ptr w"
  "clock (update_progress job n i w) = clock w"
  "log (update_progress job n i w) = log w"
  by (simp_all add: update_progress_def Let_def)

lemma delay_between_frame [simp]:
  "cfg (delay_between job n i w) = cfg w"
  "db (delay_between job n i w) = db w"
  "heap (delay_between job n i w) = heap w"
  "active (delay_between job n i w) = active w"
  "goroutines (delay_between job n i w) = goroutines w"
  "next_ptr (delay_between job n i w) = next_ptr w"
  "clock (delay_between job n i w) =
     (if int i < int n - 1 then clock w + max 0 (DelayMS (cfg w) * Millisecond) else clock w)"
  "log (delay_between job n i w) =
     log w @ (if int i < int n - 1
              then [Delay (BroadcastJob.ID (heap w job)) (DelayMS (cfg w) * Millisecond)]
              else [])"
  by (simp_all add: delay_between_def Sleep_def Let_def)

lemmas iteration_unfold = iteration_def Let_def case_prod_beta

lemma iteration_frame [simp]:
  "cfg (snd (iteration env job n i r fr w)) = cfg w"
  "active (snd (iteration env job n i r fr w)) = active w"
  "goroutines (snd (iteration env job n i r fr w)) = goroutines w"
  "next_ptr (snd (iteration env job n i r fr w)) = next_ptr w"
  by (simp_all add: iteration_unfold)

lemma iteration_heap:
  "heap (snd (iteration env job n i r fr w)) = (heap w)(job := (if fst (send_message env i (heap w job) r)
        then (heap w job)\<lparr>BroadcastJob.SentCount := BroadcastJob.SentCount (heap w job) + 1\<rparr>
        else (heap w job)\<lparr>BroadcastJob.FailedCount := BroadcastJob.FailedCount (heap w job) + 1\<rparr>))"
  by (simp add: iteration_unfold)

lemma iteration_same_message:
  "same_message (heap w p) (heap (snd (iteration env job n i r fr w)) p)"
  by (simp add: iteration_heap same_message_def)

lemma iteration_log:
  "log (snd (iteration env job n i r fr w)) =
     log w
     @ (if sentInWindow fr \<ge> RateLimit (cfg w)
        then [WindowWait (BroadcastJob.ID (heap w job))
                (if clock w - windowStart fr < Minute then Minute - (clock w - windowStart fr) else 0)
                (max (clock w) (windowStart fr + Minute))]
        else [])
     @ [Send (BroadcastJob.ID (heap w job)) r (fst (send_message env i (heap w job) r))
          (if sentInWindow fr \<ge> RateLimit (cfg w) then max (clock w) (windowStart fr + Minute)
           else clock w)]
     @ (if int i < int n - 1
        then [Delay (BroadcastJob.ID (heap w job)) (DelayMS (cfg w) * Millisecond)] else [])"
  by (simp add: iteration_unfold)

lemma iteration_fst:
  "fst (iteration env job n i r fr w) =
     \<lparr>sentInWindow = (if sentInWindow fr \<ge> RateLimit (cfg w) then 0 else sentInWindow fr)
                      + (if fst (send_message env i (heap w job) r) then 1 else 0),
      windowStart = (if sentInWindow fr \<ge> RateLimit (cfg w)
                     then max (clock w) (windowStart fr + Minute) else windowStart fr)\<rparr>"
  by (simp add: iteration_unfold)

lemma iteration_clock:
  "(if sentInWindow fr \<ge> RateLimit (cfg w) then max (clock w) (windowStart fr + Minute) else clock w)
     \<le> clock (snd (iteration env job n i r fr w))"
  by (simp add: iteration_unfold)

lemma range_Cons_None:
  "cancel (heap (interleave env job i w) job) = None \<Longrightarrow>
   range_Recipients env job n i (r # rs) fr w =
     range_Recipients env job n (Suc i) rs (fst (iteration env job n i r fr (interleave env job i w)))
        (snd (iteration env job n i r fr (interleave env job i w)))"
  by (simp add: Let_def case_prod_beta)

subsection \<open>The loop without cancellation\<close>

lemma iteration_attempts:
  "attempts (BroadcastJob.ID (heap w job)) (log (snd (iteration env job n i r fr w))) =
   attempts (BroadcastJob.ID (heap w job)) (log w) @ [(r, fst (send_message env i (heap w job) r))]"
  by (simp add: iteration_log attempts_append)

lemma range_no_cancel:
  assumes "\<forall>i. \<not> cancel_requested env i"
  shows "cancel (heap w job) = None \<Longrightarrow> range_Recipients env job n i rs fr w = (fr', w') \<Longrightarrow>
     heap w' job = (heap w job)
         \<lparr>BroadcastJob.SentCount := BroadcastJob.SentCount (heap w job) + int (length (filter id (outcomes env (heap w job) i rs))),
          BroadcastJob.FailedCount := BroadcastJob.FailedCount (heap w job) + int (length (filter Not (outcomes env (heap w job) i rs)))\<rparr>
     \<and> attempts (BroadcastJob.ID (heap w job)) (log w') =
         attempts (BroadcastJob.ID (heap w job)) (log w) @ zip rs (outcomes env (heap w job) i rs)"
proof (induction rs arbitrary: i fr w)
  case Nil
  then show ?case by simp
next
  case (Cons r rs)
  have il: "interleave env job i w = w" using assms by (simp add: interleave_def)
  define fr2 where "fr2 = fst (iteration env job n i r fr w)"
  define w4 where "w4 = snd (iteration env job n i r fr w)"
  have cn: "cancel (heap (interleave env job i w) job) = None" using il Cons.prems(1) by simp
  from Cons.prems(2) have rest: "range_Recipients env job n (Suc i) rs fr2 w4 = (fr', w')"
    unfolding range_Cons_None [OF cn] il fr2_def w4_def .
  have h: "heap w4 job = (if fst (send_message env i (heap w job) r)
        then (heap w job)\<lparr>BroadcastJob.SentCount := BroadcastJob.SentCount (heap w job) + 1\<rparr>
        else (heap w job)\<lparr>BroadcastJob.FailedCount := BroadcastJob.FailedCount (heap w job) + 1\<rparr>)"
    unfolding w4_def by (simp add: iteration_heap)
  have a: "attempts (BroadcastJob.ID (heap w job)) (log w4) =
      attempts (BroadcastJob.ID (heap w job)) (log w) @ [(r, fst (send_message env i (heap w job) r))]"
    unfolding w4_def by (rule iteration_attempts)
  have c: "cancel (heap w4 job) = None" using h Cons.prems(1) by simp
  have o: "outcomes env (heap w4 job) (Suc i) rs = outcomes env (heap w job) (Suc i) rs"
    by (rule outcomes_cong) (simp_all add: h)
  have idj: "BroadcastJob.ID (heap w4 job) = BroadcastJob.ID (heap w job)" by (simp add: h)
  note ih = Cons.IH [OF c rest, unfolded o idj a]
  show ?case
  proof (cases "fst (send_message env i (heap w job) r)")
    case True
    with ih h show ?thesis by simp
  next
    case False
    with ih h show ?thesis by simp
  qed
qed


lemma begin_facts:
  assumes "executeBroadcast_begin k recipients w = Some (job, msg, w3)"
  shows "cancel (heap w3 job) = None"
    and "BroadcastJob.Recipients (heap w3 job) = map JID recipients"
    and "BroadcastJob.SentCount (heap w3 job) = 0"
    and "BroadcastJob.FailedCount (heap w3 job) = 0"
    and "BroadcastJob.ID (heap w3 job) = BroadcastMessage.ID msg"
    and "BroadcastJob.TotalRecipients (heap w3 job) = int (length recipients)"
    and "log w3 = log w"
    and "map_of (active w3) k = Some job"
    and "BroadcastMessage.Status msg = ''sending''"
  using assms
  by (auto simp: executeBroadcast_begin_def Let_def update_conv split: option.splits)

subsection \<open>Validation of a request\<close>

text \<open>
  C5. \<open>CreateBroadcast\<close> validates in this order: the list must exist (\<open>NotFound\<close>) and
  be active (\<open>InactiveList\<close>), then the number of active recipients must be positive
  (\<open>NoRecipients\<close>), then it must not exceed the configured ceiling
  (\<open>TooManyRecipients\<close>). Whenever an error is returned the world is unchanged: no row
  is persisted and no dispatch is started.
\<close>

theorem CreateBroadcast_validation_order:
  "(broadcast_lists (db w) (BroadcastRequest.BroadcastListID req) = None \<longrightarrow>
      snd (fst (CreateBroadcast req w)) = Some NotFound)
   \<and> (\<forall>bl. broadcast_lists (db w) (BroadcastRequest.BroadcastListID req) = Some bl \<longrightarrow>
        (\<not> BroadcastList.IsActive bl \<longrightarrow> snd (fst (CreateBroadcast req w)) = Some InactiveList)
      \<and> (BroadcastList.IsActive bl
           \<and> length (filter BroadcastRecipient.IsActive (BroadcastList.Recipients bl)) = 0 \<longrightarrow>
           snd (fst (CreateBroadcast req w)) = Some NoRecipients)
      \<and> (BroadcastList.IsActive bl
           \<and> length (filter BroadcastRecipient.IsActive (BroadcastList.Recipients bl)) \<noteq> 0
           \<and> int (length (filter BroadcastRecipient.IsActive (BroadcastList.Recipients bl)))
               > MaxRecipients (cfg w) \<longrightarrow>
           snd (fst (CreateBroadcast req w)) = Some TooManyRecipients)
      \<and> (BroadcastList.IsActive bl
           \<and> length (filter BroadcastRecipient.IsActive (BroadcastList.Recipients bl)) \<noteq> 0
           \<and> int (length (filter BroadcastRecipient.IsActive (BroadcastList.Recipients bl)))
               \<le> MaxRecipients (cfg w) \<longrightarrow>
           snd (fst (CreateBroadcast req w)) = None))
   \<and> (snd (fst (CreateBroadcast req w)) \<noteq> None \<longrightarrow>
        snd (CreateBroadcast req w) = w \<and> \<not> Success (fst (fst (CreateBroadcast req w))))"
  by (auto simp: CreateBroadcast_def failure_def Let_def split: option.splits prod.splits)

theorem CreateBroadcast_validation_order_witness:
  "snd (fst (CreateBroadcast (request 5 []) world0)) = Some NotFound
   \<and> snd (CreateBroadcast (request 5 []) world0) = world0
   \<and> snd (fst (CreateBroadcast (request 2 []) world0)) = Some InactiveList
   \<and> snd (CreateBroadcast (request 2 []) world0) = world0
   \<and> snd (fst (CreateBroadcast (request 3 []) world0)) = Some NoRecipients
   \<and> snd (CreateBroadcast (request 3 []) world0) = world0
   \<and> snd (fst (CreateBroadcast (request 4 []) world0)) = Some TooManyRecipients
   \<and> snd (CreateBroadcast (request 4 []) world0) = world0
   \<and> snd (fst (CreateBroadcast (request 1 []) world0)) = None"
  using CreateBroadcast_validation_order [of world0 "request 5 []"]
        CreateBroadcast_validation_order [of world0 "request 2 []"]
        CreateBroadcast_validation_order [of world0 "request 3 []"]
        CreateBroadcast_validation_order [of world0 "request 4 []"]
        CreateBroadcast_validation_order [of world0 "request 1 []"]
  by (simp add: examples)

subsection \<open>Construction\<close>

text \<open>
  C7 as stated fails: with \<open>BROADCAST_RATE_LIMIT=0\<close> the configuration is loaded with
  the rate limit 0, \<open>NewManager\<close> returns a manager for it, and a broadcast run by
  that manager attempts all its recipients.
\<close>

theorem NewManager_rejects_counterexample:
  "RateLimit (Load getenv_zero_rate atoi_example) = 0
   \<and> NewManager (Load getenv_zero_rate atoi_example) db0 =
       Inr \<lparr>cfg = \<lparr>RateLimit = 0, DelayMS = 1000, MaxRecipients = 100\<rparr>, db = db0, active = []\<rparr>
   \<and> attempts 1 (log (executeBroadcast env_ok 1 abc
                        (world_created\<lparr>cfg := Load getenv_zero_rate atoi_example\<rparr>))) =
       [(''A'', True), (''B'', True), (''C'', True)]"
proof -
  have c: "Load getenv_zero_rate atoi_example = \<lparr>RateLimit = 0, DelayMS = 1000, MaxRecipients = 100\<rparr>"
    by (simp add: Load_def getEnvInt_def getenv_zero_rate_def atoi_example_def)
  have a: "attempts 1 (log (executeBroadcast env_ok 1 abc
                        (world_created\<lparr>cfg := Load getenv_zero_rate atoi_example\<rparr>))) =
       [(''A'', True), (''B'', True), (''C'', True)]"
    by code_simp
  show ?thesis
    using a by (simp add: c NewManager_def)
qed

text \<open>
  C7, as amended. \<open>NewManager\<close> never fails: it checks nothing and returns a manager
  that holds the configuration it was given. The configuration is not checked when
  it is loaded either: whatever integer \<open>BROADCAST_RATE_LIMIT\<close> parses to, zero and
  negative numbers included, becomes the rate limit of the manager.
\<close>

theorem NewManager_never_rejects:
  "NewManager c d = Inr \<lparr>cfg = c, db = d, active = []\<rparr>
   \<and> (Getenv ''BROADCAST_RATE_LIMIT'' \<noteq> []
        \<and> Atoi (Getenv ''BROADCAST_RATE_LIMIT'') = Some r \<longrightarrow>
       RateLimit (Load Getenv Atoi) = r
       \<and> NewManager (Load Getenv Atoi) d = Inr \<lparr>cfg = Load Getenv Atoi, db = d, active = []\<rparr>)"
  by (simp add: NewManager_def Load_def getEnvInt_def)

theorem NewManager_never_rejects_witness:
  "getenv_negative_rate ''BROADCAST_RATE_LIMIT'' \<noteq> []
   \<and> atoi_example (getenv_negative_rate ''BROADCAST_RATE_LIMIT'') = Some (- 5)
   \<and> RateLimit (Load getenv_negative_rate atoi_example) = - 5
   \<and> NewManager (Load getenv_negative_rate atoi_example) db0 =
       Inr \<lparr>cfg = \<lparr>RateLimit = - 5, DelayMS = 1000, MaxRecipients = 100\<rparr>, db = db0, active = []\<rparr>"
proof -
  have l: "Load getenv_negative_rate atoi_example
      = \<lparr>RateLimit = - 5, DelayMS = 1000, MaxRecipients = 100\<rparr>"
    by (simp add: Load_def getEnvInt_def getenv_negative_rate_def atoi_example_def)
  from NewManager_never_rejects
         [where Getenv = getenv_negative_rate and Atoi = atoi_example and r = "- 5" and d = db0
            and c = "Load getenv_negative_rate atoi_example"]
  show ?thesis
    unfolding l by (simp add: getenv_negative_rate_def atoi_example_def)
qed

subsection \<open>Failures of single recipients\<close>

text \<open>
  C6. When no cancellation arrives, the loop calls the transport once for every
  recipient, in the order of the list, whatever the outcomes are: a failure is counted
  in \<open>FailedCount\<close>, a success in \<open>SentCount\<close>, nothing is retried and the job is not
  aborted; the job ends with the persisted status \<open>completed\<close>.
\<close>

theorem failures_counted_loop_continues:
  assumes "executeBroadcast_begin k recipients w = Some (job, msg, w3)"
    and "BroadcastMessage.ID msg = k"
    and "\<forall>i. \<not> cancel_requested env i"
  shows "\<exists>row. broadcast_messages (db (executeBroadcast env k recipients w)) k = Some row
      \<and> BroadcastMessage.Status row = ''completed''
      \<and> BroadcastMessage.SentCount row =
          int (length (filter id (outcomes env (heap w3 job) 0 (map JID recipients))))
      \<and> BroadcastMessage.FailedCount row =
          int (length (filter Not (outcomes env (heap w3 job) 0 (map JID recipients))))
      \<and> attempts k (log (executeBroadcast env k recipients w)) =
          attempts k (log w) @ zip (map JID recipients) (outcomes env (heap w3 job) 0 (map JID recipients))"
proof -
  note b = begin_facts [OF assms(1)]
  define fw where "fw = range_Recipients env job (length (map JID recipients)) 0 (map JID recipients)
             \<lparr>sentInWindow = 0, windowStart = clock w3\<rparr> w3"
  have fw: "range_Recipients env job (length (map JID recipients)) 0 (map JID recipients)
             \<lparr>sentInWindow = 0, windowStart = clock w3\<rparr> w3 = (fst fw, snd fw)"
    by (simp add: fw_def)
  have s: "sendToRecipients env job w3 = snd fw"
    by (simp add: sendToRecipients_def b(2) fw_def)
  note l = range_no_cancel [OF assms(3) b(1) fw, unfolded b]
  have il: "interleave env job (length recipients) (snd fw) = snd fw"
    using assms(3) by (simp add: interleave_def)
  have e: "executeBroadcast env k recipients w = executeBroadcast_end k job msg (snd fw)"
    by (simp add: executeBroadcast_def assms(1) s il)
  show ?thesis
    unfolding e using l assms(2)
    by (simp add: executeBroadcast_end_def Save_def Let_def)
qed


theorem failures_counted_loop_continues_witness:
  "\<exists>row. broadcast_messages (db (executeBroadcast env_B_fails 1 abc world_created)) 1 = Some row
      \<and> BroadcastMessage.Status row = ''completed''
      \<and> BroadcastMessage.SentCount row = 2
      \<and> BroadcastMessage.FailedCount row = 1
      \<and> attempts 1 (log (executeBroadcast env_B_fails 1 abc world_created)) =
          [(''A'', True), (''B'', False), (''C'', True)]"
proof -
  obtain job msg w3 where b: "executeBroadcast_begin 1 abc world_created = Some (job, msg, w3)"
    by (simp add: executeBroadcast_begin_def world_created_def CreateBroadcast_def Create_def
        Let_def examples)
  have i: "BroadcastMessage.ID msg = 1"
    using b
    by (auto simp: executeBroadcast_begin_def world_created_def CreateBroadcast_def Create_def
        Let_def examples)
  have c: "\<forall>i. \<not> cancel_requested env_B_fails i"
    by (simp add: env_B_fails_def)
  have m: "BroadcastJob.MessageType (heap w3 job) = ''text''"
    using b
    by (auto simp: executeBroadcast_begin_def world_created_def CreateBroadcast_def Create_def
        Let_def examples)
  have o: "outcomes env_B_fails (heap w3 job) 0 (map JID abc) = [True, False, True]"
    by (simp add: send_message_def m env_B_fails_def examples)
  have l: "log world_created = []"
    by (simp add: world_created_def CreateBroadcast_def Create_def Let_def examples)
  from failures_counted_loop_continues [OF b i c] show ?thesis
    unfolding o l by (simp add: examples)
qed

subsection \<open>Status queries\<close>

text \<open>
  C4 as stated fails: while job 1 is registered as active and its live counters say
  that one message has been sent, \<open>GetBroadcastStatus\<close> reports the persisted
  counters, which still say none.
\<close>

theorem GetBroadcastStatus_live_counterexample:
  "map_of (active world_sending) 1 = Some 0
   \<and> BroadcastJob.SentCount (heap world_sending 0) = 1
   \<and> BroadcastJob.FailedCount (heap world_sending 0) = 0
   \<and> GetBroadcastStatus 1 world_sending =
       Inr \<lparr>BroadcastStatus.ID = 1, BroadcastListID = 1, Status = ''sending'', SentCount = 0,
            FailedCount = 0, TotalRecipients = 3, Progress = Num 0, StartedAt = Some 0,
            CompletedAt = None, CreatedAt = 0\<rparr>"
  by code_simp

text \<open>
  C4, as amended. \<open>GetBroadcastStatus\<close> reads the persisted row only, whether the job
  is registered as active or not: it returns the status and the counters of the row,
  with the progress \<open>(SentCount + FailedCount) / TotalRecipients * 100\<close> when the row
  has recipients, and fails with \<open>NotFound\<close> when there is no row for the id.
\<close>

theorem GetBroadcastStatus_reads_persisted:
  "(broadcast_messages (db w) k = None \<longrightarrow> GetBroadcastStatus k w = Inl NotFound)
   \<and> (\<forall>row. broadcast_messages (db w) k = Some row \<longrightarrow>
        (\<exists>s. GetBroadcastStatus k w = Inr s
           \<and> BroadcastStatus.Status s = BroadcastMessage.Status row
           \<and> BroadcastStatus.SentCount s = BroadcastMessage.SentCount row
           \<and> BroadcastStatus.FailedCount s = BroadcastMessage.FailedCount row
           \<and> BroadcastStatus.TotalRecipients s = BroadcastMessage.TotalRecipients row
           \<and> (BroadcastMessage.TotalRecipients row > 0 \<longrightarrow>
                Progress s =
                  Num (real_of_int (BroadcastMessage.SentCount row
                                     + BroadcastMessage.FailedCount row)
                       / real_of_int (BroadcastMessage.TotalRecipients row) * 100))))
   \<and> GetBroadcastStatus k (w\<lparr>active := a, heap := h\<rparr>) = GetBroadcastStatus k w"
  by (simp add: GetBroadcastStatus_def Let_def float64_of_int_def)

theorem GetBroadcastStatus_reads_persisted_witness:
  "GetBroadcastStatus 9 world_sending = Inl NotFound
   \<and> map_option BroadcastMessage.SentCount (broadcast_messages (db world_sending) 1) = Some 0
   \<and> (\<exists>s. GetBroadcastStatus 1 world_sending = Inr s
         \<and> BroadcastStatus.Status s = ''sending''
         \<and> BroadcastStatus.SentCount s = 0
         \<and> BroadcastStatus.TotalRecipients s = 3
         \<and> Progress s = Num 0)
   \<and> GetBroadcastStatus 1 (world_sending\<lparr>active := [], heap := (\<lambda>p. null_job)\<rparr>)
       = GetBroadcastStatus 1 world_sending"
proof -
  have n: "broadcast_messages (db world_sending) 9 = None"
    by code_simp
  have r: "broadcast_messages (db world_sending) 1 =
      Some \<lparr>BroadcastMessage.ID = 1, BroadcastListID = 1, MessageType = ''text'', Content = ''hi'',
        MediaURL = [], Status = ''sending'', SentCount = 0, FailedCount = 0, TotalRecipients = 3,
        StartedAt = Some 0, CompletedAt = None, CreatedAt = 0\<rparr>"
    by code_simp
  show ?thesis
    using GetBroadcastStatus_reads_persisted
            [where w = world_sending and k = 9 and a = "[]" and h = "\<lambda>p. null_job"]
          GetBroadcastStatus_reads_persisted
            [where w = world_sending and k = 1 and a = "[]" and h = "\<lambda>p. null_job"]
    unfolding n r by auto
qed




subsection \<open>Cancellation\<close>

text \<open>
  C1, at a failing input: job 1 has the recipients A, B and C and is cancelled when A
  has been attempted. The loop stops, A is the only recipient attempted, and the
  persisted status is \<open>cancelled\<close> when the loop returns; \<open>executeBroadcast\<close> then
  saves the row with the status \<open>completed\<close>, and that is the final status.
\<close>

theorem cancelled_status_overwritten:
  "map_option BroadcastMessage.Status (broadcast_messages (db world_loop_returned) 1)
     = Some ''cancelled''
   \<and> attempts 1 (log (executeBroadcast env_cancel1 1 abc world_created)) = [(''A'', True)]
   \<and> map_option (\<lambda>row. (BroadcastMessage.Status row,
                          BroadcastMessage.SentCount row + BroadcastMessage.FailedCount row))
        (broadcast_messages (db (executeBroadcast env_cancel1 1 abc world_created)) 1)
     = Some (''completed'', 1)"
  by code_simp

text \<open>
  C2, at a failing input: after the same cancelled run the persisted status is
  \<open>completed\<close> while the counters add up to 1 and the job has 3 recipients.
\<close>

theorem completed_below_total:
  "map_option (\<lambda>row. (BroadcastMessage.Status row,
                       BroadcastMessage.SentCount row + BroadcastMessage.FailedCount row,
                       BroadcastMessage.TotalRecipients row))
     (broadcast_messages (db (executeBroadcast env_cancel1 1 abc world_created)) 1)
   = Some (''completed'', 1, 3)"
  by code_simp

subsection \<open>Rate limiting\<close>

lemma range_fixed_window:
  assumes "1 \<le> RateLimit (cfg w)"
    and "sentInWindow fr \<le> RateLimit (cfg w)"
    and "windowStart fr \<le> clock w"
    and "range_Recipients env job n i rs fr w = (fr', w')"
  shows "\<exists>evs. log w' = log w @ evs
           \<and> fixed_window (BroadcastJob.ID (heap w job)) (RateLimit (cfg w))
                (sentInWindow fr) (windowStart fr) evs"
  using assms
proof (induction rs arbitrary: i fr w)
  case Nil
  then show ?case by simp
next
  case (Cons r rs)
  define w0 where "w0 = interleave env job i w"
  have f0: "cfg w0 = cfg w" "log w0 = log w" "clock w0 = clock w"
    by (simp_all add: w0_def)
  have id0: "BroadcastJob.ID (heap w0 job) = BroadcastJob.ID (heap w job)"
    using interleave_same_message [of w job env job i] by (simp add: same_message_def w0_def)
  show ?case
  proof (cases "cancel (heap w0 job)")
    case (Some v)
    with Cons.prems(4) have "w' = w0\<lparr>heap := (heap w0)(job := (heap w0 job)\<lparr>cancel := None\<rparr>)\<rparr>"
      by (simp add: w0_def Let_def)
    then have "log w' = log w @ []" by (simp add: f0)
    then show ?thesis by (intro exI [of _ "[]"]) simp
  next
    case None
    define fr2 where "fr2 = fst (iteration env job n i r fr w0)"
    define w4 where "w4 = snd (iteration env job n i r fr w0)"
    from Cons.prems(4) None have rest: "range_Recipients env job n (Suc i) rs fr2 w4 = (fr', w')"
      by (simp add: w0_def fr2_def w4_def case_prod_beta Let_def)
    have c4: "cfg w4 = cfg w" by (simp add: w4_def f0)
    have id4: "BroadcastJob.ID (heap w4 job) = BroadcastJob.ID (heap w job)"
      using iteration_same_message [of w0 job env job n i r fr]
      by (simp add: same_message_def w4_def id0)
    have fr2: "fr2 =
       \<lparr>sentInWindow = (if sentInWindow fr \<ge> RateLimit (cfg w) then 0 else sentInWindow fr)
                      + (if fst (send_message env i (heap w0 job) r) then 1 else 0),
        windowStart = (if sentInWindow fr \<ge> RateLimit (cfg w)
                     then max (clock w) (windowStart fr + Minute) else windowStart fr)\<rparr>"
      by (simp add: fr2_def iteration_fst f0)
    have p1: "1 \<le> RateLimit (cfg w4)" using Cons.prems(1) c4 by simp
    have p2: "sentInWindow fr2 \<le> RateLimit (cfg w4)"
      using Cons.prems(1,2) by (simp add: fr2 c4)
    have p3: "windowStart fr2 \<le> clock w4"
      using iteration_clock [where fr = fr and w = w0 and env = env and job = job and n = n and i = i and r = r] Cons.prems(3)
      by (simp add: fr2 w4_def f0 split: if_splits)
    from Cons.IH [OF p1 p2 p3 rest] obtain evs where
      evs: "log w' = log w4 @ evs"
           "fixed_window (BroadcastJob.ID (heap w job)) (RateLimit (cfg w))
              (sentInWindow fr2) (windowStart fr2) evs"
      by (auto simp: c4 id4)
    have l4: "log w4 = log w
     @ (if sentInWindow fr \<ge> RateLimit (cfg w)
        then [WindowWait (BroadcastJob.ID (heap w job))
                (if clock w - windowStart fr < Minute then Minute - (clock w - windowStart fr) else 0)
                (max (clock w) (windowStart fr + Minute))]
        else [])
     @ [Send (BroadcastJob.ID (heap w job)) r (fst (send_message env i (heap w0 job) r))
          (if sentInWindow fr \<ge> RateLimit (cfg w) then max (clock w) (windowStart fr + Minute)
           else clock w)]
     @ (if int i < int n - 1
        then [Delay (BroadcastJob.ID (heap w job)) (DelayMS (cfg w) * Millisecond)] else [])"
      by (simp add: w4_def iteration_log f0 id0)
    show ?thesis
      apply (rule exI [of _ "(if sentInWindow fr \<ge> RateLimit (cfg w)
        then [WindowWait (BroadcastJob.ID (heap w job))
                (if clock w - windowStart fr < Minute then Minute - (clock w - windowStart fr) else 0)
                (max (clock w) (windowStart fr + Minute))]
        else [])
     @ [Send (BroadcastJob.ID (heap w job)) r (fst (send_message env i (heap w0 job) r))
          (if sentInWindow fr \<ge> RateLimit (cfg w) then max (clock w) (windowStart fr + Minute)
           else clock w)]
     @ (if int i < int n - 1
        then [Delay (BroadcastJob.ID (heap w job)) (DelayMS (cfg w) * Millisecond)] else [])
     @ evs"])
      using evs Cons.prems(1,2,3)
      by (cases "RateLimit (cfg w) \<le> sentInWindow fr"; cases "fst (send_message env i (heap w0 job) r)")
         (simp_all add: l4 fr2)
  qed
qed

text \<open>
  C3 as stated fails: with the rate limit 1, two jobs that are registered at the same
  time each send their first message, one second apart.
\<close>

theorem global_rate_limit_counterexample:
  "RateLimit (cfg world_two_jobs) = 1
   \<and> active world_two_jobs = [(1, 0), (2, 1)]
   \<and> log world_two_jobs =
       [Send 1 ''A'' True 0, Delay 1 1000000000, Send 2 ''A'' True 1000000000, Delay 2 1000000000]
   \<and> sends_in 0 Minute (log world_two_jobs) = 2"
  by code_simp

text \<open>
  C3, as amended. The limiter is not shared between jobs: every call of
  \<open>sendToRecipients\<close> starts its own counter at 0 and its own window at the current
  instant. Within one dispatch loop, when the rate limit \<open>R\<close> is at least 1, the
  successful sends obey a fixed window: no window holds more than \<open>R\<close> of them, and a
  new window starts at least 60 seconds after the one before.
\<close>

theorem rate_limit_per_loop:
  assumes "1 \<le> RateLimit (cfg w)"
  shows "\<exists>evs. log (sendToRecipients env job w) = log w @ evs
           \<and> fixed_window (BroadcastJob.ID (heap w job)) (RateLimit (cfg w)) 0 (clock w) evs"
proof -
  define res where "res = range_Recipients env job (length (BroadcastJob.Recipients (heap w job))) 0
            (BroadcastJob.Recipients (heap w job)) \<lparr>sentInWindow = 0, windowStart = clock w\<rparr> w"
  have r: "range_Recipients env job (length (BroadcastJob.Recipients (heap w job))) 0
            (BroadcastJob.Recipients (heap w job)) \<lparr>sentInWindow = 0, windowStart = clock w\<rparr> w
           = (fst res, snd res)"
    by (simp add: res_def)
  have s: "sendToRecipients env job w = snd res"
    by (simp add: sendToRecipients_def res_def Let_def)
  from assms have a: "sentInWindow \<lparr>sentInWindow = 0, windowStart = clock w\<rparr> \<le> RateLimit (cfg w)"
    by simp
  have b: "windowStart \<lparr>sentInWindow = 0, windowStart = clock w\<rparr> \<le> clock w"
    by simp
  from range_fixed_window [OF assms a b r] show ?thesis
    by (simp add: s)
qed

theorem rate_limit_per_loop_witness:
  "1 \<le> RateLimit (cfg (world_started\<lparr>cfg := cfg_rate1\<rparr>))
   \<and> log (sendToRecipients env_ok 0 (world_started\<lparr>cfg := cfg_rate1\<rparr>)) =
       [Send 1 ''A'' True 0, Delay 1 1000000000, WindowWait 1 59000000000 60000000000,
        Send 1 ''B'' True 60000000000, Delay 1 1000000000,
        WindowWait 1 59000000000 120000000000, Send 1 ''C'' True 120000000000]
   \<and> fixed_window 1 1 0 0
       [Send 1 ''A'' True 0, Delay 1 1000000000, WindowWait 1 59000000000 60000000000,
        Send 1 ''B'' True 60000000000, Delay 1 1000000000,
        WindowWait 1 59000000000 120000000000, Send 1 ''C'' True 120000000000]"
proof -
  let ?w = "world_started\<lparr>cfg := cfg_rate1\<rparr>"
  have r: "1 \<le> RateLimit (cfg ?w)"
    by (simp add: cfg_rate1_def)
  have l: "log (sendToRecipients env_ok 0 ?w) =
       [Send 1 ''A'' True 0, Delay 1 1000000000, WindowWait 1 59000000000 60000000000,
        Send 1 ''B'' True 60000000000, Delay 1 1000000000,
        WindowWait 1 59000000000 120000000000, Send 1 ''C'' True 120000000000]"
    by code_simp
  have f: "log ?w = []" "BroadcastJob.ID (heap ?w 0) = 1" "RateLimit (cfg ?w) = 1" "clock ?w = 0"
    by code_simp+
  from rate_limit_per_loop [OF r, of env_ok 0] show ?thesis
    unfolding l f using r l by simp
qed

subsection \<open>Failed sends and the rate limit\<close>








subsection \<open>Scheduled broadcasts\<close>

lemma db_touch_refl [simp]: "db_touch K d d"
  by (simp add: db_touch_def option.rel_refl)

lemma db_touch_trans: "db_touch K a b \<Longrightarrow> db_touch K b c \<Longrightarrow> db_touch K a c"
  unfolding db_touch_def
proof (intro conjI allI)
  fix k
  assume ab: "next_id b = next_id a \<and> broadcast_lists b = broadcast_lists a \<and>
       (\<forall>k. rel_option (\<lambda>r r'. BroadcastMessage.ID r' = BroadcastMessage.ID r \<and> (k \<noteq> K \<longrightarrow> r' = r))
          (broadcast_messages a k) (broadcast_messages b k))"
    and bc: "next_id c = next_id b \<and> broadcast_lists c = broadcast_lists b \<and>
       (\<forall>k. rel_option (\<lambda>r r'. BroadcastMessage.ID r' = BroadcastMessage.ID r \<and> (k \<noteq> K \<longrightarrow> r' = r))
          (broadcast_messages b k) (broadcast_messages c k))"
  from ab bc show "next_id c = next_id a" by simp
  from ab bc show "broadcast_lists c = broadcast_lists a" by simp
  from ab have 1: "rel_option (\<lambda>r r'. BroadcastMessage.ID r' = BroadcastMessage.ID r \<and> (k \<noteq> K \<longrightarrow> r' = r))
          (broadcast_messages a k) (broadcast_messages b k)" by blast
  from bc have 2: "rel_option (\<lambda>r r'. BroadcastMessage.ID r' = BroadcastMessage.ID r \<and> (k \<noteq> K \<longrightarrow> r' = r))
          (broadcast_messages b k) (broadcast_messages c k)" by blast
  from 1 2 show "rel_option (\<lambda>r r'. BroadcastMessage.ID r' = BroadcastMessage.ID r \<and> (k \<noteq> K \<longrightarrow> r' = r))
          (broadcast_messages a k) (broadcast_messages c k)"
    by (cases "broadcast_messages a k"; cases "broadcast_messages b k"; cases "broadcast_messages c k")
       auto
qed

lemma db_touch_Updates:
  "(\<And>row. BroadcastMessage.ID (cols row) = BroadcastMessage.ID row) \<Longrightarrow>
   db_touch K d (Updates K cols d)"
  by (auto simp: db_touch_def Updates_def option.rel_refl split: option.splits)

lemma db_touch_Save:
  "broadcast_messages d K = Some row \<Longrightarrow> BroadcastMessage.ID row = K \<Longrightarrow>
   BroadcastMessage.ID msg = K \<Longrightarrow> db_touch K d (Save msg d)"
  by (auto simp: db_touch_def Save_def option.rel_refl)

lemma log_touch_refl [simp]: "log_touch K l l"
  by (simp add: log_touch_def)

lemma log_touch_trans: "log_touch K a b \<Longrightarrow> log_touch K b c \<Longrightarrow> log_touch K a c"
  by (auto simp: log_touch_def)

lemma log_touch_append: "\<forall>e \<in> set evs. event_job e = K \<Longrightarrow> log_touch K l (l @ evs)"
  by (auto simp: log_touch_def)

lemma touch_refl [simp]: "touch K w w"
  by (simp add: touch_def)

lemma touch_trans: "touch K a b \<Longrightarrow> touch K b c \<Longrightarrow> touch K a c"
  by (auto simp: touch_def intro: db_touch_trans log_touch_trans)

lemma touch_CancelBroadcast: "touch K w (snd (CancelBroadcast K w))"
  by (auto simp: touch_def CancelBroadcast_def Let_def intro!: db_touch_Updates
      split: option.splits)

lemma touch_interleave:
  "BroadcastJob.ID (heap w job) = K \<Longrightarrow> touch K w (interleave env job i w)"
  by (auto simp: interleave_def touch_CancelBroadcast)

lemma db_iteration:
  "db (snd (iteration env job n i r fr w)) =
     db (update_progress job n i (snd (send_and_count env job i r (fst (rate_limiting job fr w))
            (snd (rate_limiting job fr w)))))"
  by (simp add: iteration_unfold)

lemma touch_iteration:
  "BroadcastJob.ID (heap w job) = K \<Longrightarrow> touch K w (snd (iteration env job n i r fr w))"
  unfolding touch_def
  apply (intro conjI)
  apply (simp add: db_iteration update_progress_def Let_def)
  apply (auto intro!: db_touch_Updates)[1]
  apply (simp_all add: iteration_log)
  apply (auto simp: log_touch_def)
  done


lemma touch_heap_update: "touch K w (w\<lparr>heap := h\<rparr>)"
  by (simp add: touch_def)

lemma touch_range:
  "BroadcastJob.ID (heap w job) = K \<Longrightarrow> touch K w (snd (range_Recipients env job n i rs fr w))"
proof (induction rs arbitrary: i fr w)
  case Nil
  show ?case by simp
next
  case (Cons r rs)
  define w0 where "w0 = interleave env job i w"
  have t0: "touch K w w0"
    unfolding w0_def using Cons.prems by (rule touch_interleave)
  have id0: "BroadcastJob.ID (heap w0 job) = K"
    using interleave_same_message [of w job env job i] Cons.prems
    by (simp add: same_message_def w0_def)
  show ?case
  proof (cases "cancel (heap w0 job)")
    case (Some v)
    then have "snd (range_Recipients env job n i (r # rs) fr w) =
        w0\<lparr>heap := (heap w0)(job := (heap w0 job)\<lparr>cancel := None\<rparr>)\<rparr>"
      by (simp add: w0_def Let_def)
    with t0 touch_heap_update [of K w0] show ?thesis
      by (auto intro: touch_trans)
  next
    case None
    define fr2 where "fr2 = fst (iteration env job n i r fr w0)"
    define w4 where "w4 = snd (iteration env job n i r fr w0)"
    from None have e: "snd (range_Recipients env job n i (r # rs) fr w) =
        snd (range_Recipients env job n (Suc i) rs fr2 w4)"
      by (simp add: w0_def fr2_def w4_def case_prod_beta Let_def)
    have t4: "touch K w0 w4"
      unfolding w4_def using id0 by (rule touch_iteration)
    have id4: "BroadcastJob.ID (heap w4 job) = K"
      using iteration_same_message [of w0 job env job n i r fr] id0
      by (simp add: same_message_def w4_def)
    from Cons.IH [OF id4] have "touch K w4 (snd (range_Recipients env job n (Suc i) rs fr2 w4))" .
    with t0 t4 show ?thesis
      unfolding e by (blast intro: touch_trans)
  qed
qed

lemma range_same_message:
  "same_message (heap w job) (heap (snd (range_Recipients env job n i rs fr w)) job)"
proof (induction rs arbitrary: i fr w)
  case Nil
  show ?case by simp
next
  case (Cons r rs)
  define w0 where "w0 = interleave env job i w"
  have s0: "same_message (heap w job) (heap w0 job)"
    unfolding w0_def by (rule interleave_same_message)
  show ?case
  proof (cases "cancel (heap w0 job)")
    case (Some v)
    then have "snd (range_Recipients env job n i (r # rs) fr w) =
        w0\<lparr>heap := (heap w0)(job := (heap w0 job)\<lparr>cancel := None\<rparr>)\<rparr>"
      by (simp add: w0_def Let_def)
    with s0 show ?thesis
      by (simp add: same_message_def)
  next
    case None
    define fr2 where "fr2 = fst (iteration env job n i r fr w0)"
    define w4 where "w4 = snd (iteration env job n i r fr w0)"
    from None have e: "snd (range_Recipients env job n i (r # rs) fr w) =
        snd (range_Recipients env job n (Suc i) rs fr2 w4)"
      by (simp add: w0_def fr2_def w4_def case_prod_beta Let_def)
    have s4: "same_message (heap w0 job) (heap w4 job)"
      unfolding w4_def by (rule iteration_same_message)
    from s0 s4 Cons.IH [of w4 "Suc i" fr2] show ?thesis
      unfolding e by (blast intro: same_message_trans)
  qed
qed

lemma touch_sendToRecipients:
  "BroadcastJob.ID (heap w job) = K \<Longrightarrow> touch K w (sendToRecipients env job w)"
  by (simp add: sendToRecipients_def Let_def touch_range)

lemma executeBroadcast_None:
  "broadcast_messages (db w) k = None \<Longrightarrow> executeBroadcast env k recipients w = w"
  by (simp add: executeBroadcast_def executeBroadcast_begin_def)

lemma executeBroadcast_effect:
  assumes "broadcast_messages (db w) k = Some row" and "BroadcastMessage.ID row = k"
  shows "db_touch k (db w) (db (executeBroadcast env k recipients w))"
    and "log_touch k (log w) (log (executeBroadcast env k recipients w))"
    and "goroutines (executeBroadcast env k recipients w) = goroutines w"
    and "active (executeBroadcast env k recipients w) = AList.delete k (active w)"
proof -
  obtain job msg w3 where b: "executeBroadcast_begin k recipients w = Some (job, msg, w3)"
    using assms(1) by (simp add: executeBroadcast_begin_def Let_def)
  have m: "BroadcastMessage.ID msg = k"
    using b assms by (auto simp: executeBroadcast_begin_def Let_def)
  have w3: "db w3 = Save msg (db w)" "log w3 = log w" "goroutines w3 = goroutines w"
      "active w3 = AList.update k job (active w)" "BroadcastJob.ID (heap w3 job) = k"
    using b assms by (auto simp: executeBroadcast_begin_def Let_def)
  define w4 where "w4 = sendToRecipients env job w3"
  define w5 where "w5 = interleave env job (length recipients) w4"
  have t4: "touch k w3 w4"
    unfolding w4_def using w3(5) by (rule touch_sendToRecipients)
  have id4: "BroadcastJob.ID (heap w4 job) = k"
    using range_same_message [of w3 job env "length (BroadcastJob.Recipients (heap w3 job))" 0
        "BroadcastJob.Recipients (heap w3 job)" "\<lparr>sentInWindow = 0, windowStart = clock w3\<rparr>"] w3(5)
    by (simp add: w4_def sendToRecipients_def Let_def same_message_def)
  have t5: "touch k w4 w5"
    unfolding w5_def using id4 by (rule touch_interleave)
  have t: "touch k w3 w5"
    using t4 t5 by (rule touch_trans)
  have e: "executeBroadcast env k recipients w = executeBroadcast_end k job msg w5"
    by (simp add: executeBroadcast_def b w4_def w5_def Let_def)
  have d3: "db_touch k (db w) (db w3)"
    unfolding w3(1) using assms m by (rule db_touch_Save)
  have d5: "db_touch k (db w) (db w5)"
    using d3 t by (auto simp: touch_def intro: db_touch_trans)
  obtain row5 where r5: "broadcast_messages (db w5) k = Some row5" "BroadcastMessage.ID row5 = k"
    using d5 assms by (auto simp: db_touch_def option_rel_Some1 dest!: spec [of _ k])
  show "db_touch k (db w) (db (executeBroadcast env k recipients w))"
    unfolding e executeBroadcast_end_def Let_def
    using d5 db_touch_Save [OF r5, of "msg\<lparr>BroadcastMessage.Status := ''completed'',
         BroadcastMessage.SentCount := BroadcastJob.SentCount (heap w5 job),
         BroadcastMessage.FailedCount := BroadcastJob.FailedCount (heap w5 job),
         BroadcastMessage.CompletedAt := Some (clock w5)\<rparr>"] m
    by (auto intro: db_touch_trans)
  show "log_touch k (log w) (log (executeBroadcast env k recipients w))"
    unfolding e using t w3 by (simp add: executeBroadcast_end_def Let_def touch_def)
  show "goroutines (executeBroadcast env k recipients w) = goroutines w"
    unfolding e using t w3 by (simp add: executeBroadcast_end_def Let_def touch_def)
  show "active (executeBroadcast env k recipients w) = AList.delete k (active w)"
    unfolding e using t w3 by (simp add: executeBroadcast_end_def Let_def touch_def delete_update_same)
qed

lemma db_touch_other:
  "db_touch K d d' \<Longrightarrow> k \<noteq> K \<Longrightarrow> broadcast_messages d' k = broadcast_messages d k"
proof -
  assume a: "db_touch K d d'" and n: "k \<noteq> K"
  from a have "rel_option (\<lambda>r r'. BroadcastMessage.ID r' = BroadcastMessage.ID r \<and> (k \<noteq> K \<longrightarrow> r' = r))
             (broadcast_messages d k) (broadcast_messages d' k)"
    by (simp add: db_touch_def)
  with n show ?thesis
    by (cases "broadcast_messages d k"; cases "broadcast_messages d' k") auto
qed

lemma db_touch_keyed:
  assumes "db_touch K d d'"
    and "\<forall>k row. broadcast_messages d k = Some row \<longrightarrow> BroadcastMessage.ID row = k"
  shows "\<forall>k row. broadcast_messages d' k = Some row \<longrightarrow> BroadcastMessage.ID row = k"
proof (intro allI impI)
  fix k row
  assume r: "broadcast_messages d' k = Some row"
  from assms(1) have "rel_option (\<lambda>r r'. BroadcastMessage.ID r' = BroadcastMessage.ID r \<and> (k \<noteq> K \<longrightarrow> r' = r))
             (broadcast_messages d k) (broadcast_messages d' k)"
    by (simp add: db_touch_def)
  with r obtain row0 where "broadcast_messages d k = Some row0"
      "BroadcastMessage.ID row = BroadcastMessage.ID row0"
    by (cases "broadcast_messages d k") auto
  with assms(2) show "BroadcastMessage.ID row = k" by simp
qed

lemma db_touch_dom:
  "db_touch K d d' \<Longrightarrow> (broadcast_messages d' k = None) = (broadcast_messages d k = None)"
proof -
  assume "db_touch K d d'"
  then have "rel_option (\<lambda>r r'. BroadcastMessage.ID r' = BroadcastMessage.ID r \<and> (k \<noteq> K \<longrightarrow> r' = r))
             (broadcast_messages d k) (broadcast_messages d' k)"
    by (simp add: db_touch_def)
  then show ?thesis
    by (cases "broadcast_messages d k"; cases "broadcast_messages d' k") auto
qed

lemma attempts_other: "\<forall>e \<in> set evs. event_job e \<noteq> k \<Longrightarrow> attempts k evs = []"
  by (induction k evs rule: attempts.induct) auto

lemma log_touch_attempts: "log_touch K l l' \<Longrightarrow> k \<noteq> K \<Longrightarrow> attempts k l' = attempts k l"
  by (auto simp: log_touch_def attempts_append intro!: attempts_other)

lemma CreateBroadcast_error:
  assumes "snd (fst (CreateBroadcast req w)) \<noteq> None"
  shows "snd (CreateBroadcast req w) = w"
proof (cases "broadcast_lists (db w) (BroadcastRequest.BroadcastListID req)")
  case None
  then show ?thesis by (simp add: CreateBroadcast_def)
next
  case (Some bl)
  define rs where "rs = filter BroadcastRecipient.IsActive (BroadcastList.Recipients bl)"
  consider "\<not> BroadcastList.IsActive bl" | "BroadcastList.IsActive bl" "rs = []"
    | "BroadcastList.IsActive bl" "rs \<noteq> []" "int (length rs) > MaxRecipients (cfg w)"
    | "BroadcastList.IsActive bl" "rs \<noteq> []" "\<not> int (length rs) > MaxRecipients (cfg w)"
    by blast
  then show ?thesis
  proof cases
    case 1
    with Some show ?thesis by (simp add: CreateBroadcast_def)
  next
    case 2
    with Some show ?thesis by (simp add: CreateBroadcast_def rs_def)
  next
    case 3
    with Some show ?thesis by (simp add: CreateBroadcast_def rs_def)
  next
    case 4
    with Some have "snd (fst (CreateBroadcast req w)) = None"
      by (simp add: CreateBroadcast_def rs_def Let_def case_prod_beta)
    with assms show ?thesis by simp
  qed
qed

lemma CreateBroadcast_success:
  assumes "snd (fst (CreateBroadcast req w)) = None"
  shows "\<exists>msg recipients.
     db (snd (CreateBroadcast req w)) =
       (db w)\<lparr>broadcast_messages := (broadcast_messages (db w))(next_id (db w) \<mapsto> msg),
              next_id := Suc (next_id (db w))\<rparr>
     \<and> BroadcastMessage.ID msg = next_id (db w)
     \<and> BroadcastMessage.Status msg = ''pending''
     \<and> goroutines (snd (CreateBroadcast req w)) =
         goroutines w @ (if ScheduledAt req = [] then [(next_id (db w), recipients)] else [])
     \<and> active (snd (CreateBroadcast req w)) = active w
     \<and> log (snd (CreateBroadcast req w)) = log w
     \<and> BroadcastID (fst (fst (CreateBroadcast req w))) = next_id (db w)
     \<and> Success (fst (fst (CreateBroadcast req w)))"
proof -
  obtain bl where bl: "broadcast_lists (db w) (BroadcastRequest.BroadcastListID req) = Some bl"
    using assms
    by (cases "broadcast_lists (db w) (BroadcastRequest.BroadcastListID req)")
       (simp_all add: CreateBroadcast_def)
  define rs where "rs = filter BroadcastRecipient.IsActive (BroadcastList.Recipients bl)"
  have act: "BroadcastList.IsActive bl"
    using assms bl by (cases "BroadcastList.IsActive bl") (simp_all add: CreateBroadcast_def)
  have ne: "rs \<noteq> []"
    using assms bl act by (cases "rs = []") (simp_all add: CreateBroadcast_def rs_def)
  have le: "\<not> int (length rs) > MaxRecipients (cfg w)"
    using assms bl act ne
    by (cases "int (length rs) > MaxRecipients (cfg w)") (simp_all add: CreateBroadcast_def rs_def)
  define msg where "msg =
     \<lparr>BroadcastMessage.ID = next_id (db w),
      BroadcastListID = BroadcastRequest.BroadcastListID req,
      MessageType = BroadcastRequest.MessageType req,
      Content = BroadcastRequest.Content req,
      MediaURL = BroadcastRequest.MediaURL req,
      Status = ''pending'', SentCount = 0, FailedCount = 0,
      TotalRecipients = int (length rs),
      StartedAt = None, CompletedAt = None, CreatedAt = clock w\<rparr>"
  have e: "CreateBroadcast req w =
     ((\<lparr>Success = True, BroadcastID = next_id (db w), Message = ''Broadcast created successfully'',
        TotalRecipients = int (length rs),
        EstimatedTime = int (length rs) * (DelayMS (cfg w) * Millisecond)\<rparr>, None),
      (if ScheduledAt req = []
       then w\<lparr>db := (db w)\<lparr>broadcast_messages := (broadcast_messages (db w))(next_id (db w) \<mapsto> msg),
                           next_id := Suc (next_id (db w))\<rparr>,
               goroutines := goroutines w @ [(next_id (db w), rs)]\<rparr>
       else w\<lparr>db := (db w)\<lparr>broadcast_messages := (broadcast_messages (db w))(next_id (db w) \<mapsto> msg),
                           next_id := Suc (next_id (db w))\<rparr>\<rparr>))"
    using bl act ne le
    by (simp add: CreateBroadcast_def Create_def Let_def rs_def [symmetric] msg_def)
  show ?thesis
    unfolding e
    by (intro exI [of _ msg] exI [of _ rs]) (simp add: msg_def)
qed


lemma untouched_create:
  assumes "untouched k w"
  shows "untouched k (snd (CreateBroadcast req w))"
proof (cases "snd (fst (CreateBroadcast req w))")
  case (Some e)
  then have "snd (CreateBroadcast req w) = w"
    by (intro CreateBroadcast_error) simp
  with assms show ?thesis by simp
next
  case None
  from CreateBroadcast_success [OF None] obtain msg recipients where
    d: "db (snd (CreateBroadcast req w)) =
       (db w)\<lparr>broadcast_messages := (broadcast_messages (db w))(next_id (db w) \<mapsto> msg),
              next_id := Suc (next_id (db w))\<rparr>"
    and m: "BroadcastMessage.ID msg = next_id (db w)"
    and g: "goroutines (snd (CreateBroadcast req w)) =
         goroutines w @ (if ScheduledAt req = [] then [(next_id (db w), recipients)] else [])"
    and a: "active (snd (CreateBroadcast req w)) = active w"
    and l: "log (snd (CreateBroadcast req w)) = log w"
    by blast
  from assms have k: "k < next_id (db w)" by (simp add: untouched_def)
  from assms k show ?thesis
    unfolding untouched_def d g a l using m by (auto simp: image_iff)
qed

lemma untouched_touch:
  assumes "untouched k w"
    and "db_touch K (db w) (db w')"
    and "log_touch K (log w) (log w')"
    and "k \<noteq> K"
    and "k \<notin> fst ` set (goroutines w')"
    and "map_of (active w') k = None"
  shows "untouched k w'"
proof -
  have 1: "\<exists>row. broadcast_messages (db w') k = Some row \<and> BroadcastMessage.Status row = ''pending''"
    using assms(1) db_touch_other [OF assms(2,4)] by (simp add: untouched_def)
  have 2: "k < next_id (db w')"
    using assms(1,2) by (simp add: untouched_def db_touch_def)
  have 3: "\<forall>k' row. broadcast_messages (db w') k' = Some row \<longrightarrow> BroadcastMessage.ID row = k'"
    using assms(2) by (rule db_touch_keyed) (use assms(1) in \<open>simp add: untouched_def\<close>)
  have 4: "attempts k (log w') = []"
    using assms(1) log_touch_attempts [OF assms(3,4)] by (simp add: untouched_def)
  from 1 2 3 4 assms(5,6) show ?thesis
    unfolding untouched_def by blast
qed

lemma untouched_cancel:
  assumes "untouched k w"
  shows "untouched k (snd (CancelBroadcast k' w))"
proof (cases "k' = k")
  case True
  with assms show ?thesis
    by (simp add: untouched_def CancelBroadcast_def)
next
  case False
  have t: "touch k' w (snd (CancelBroadcast k' w))" by (rule touch_CancelBroadcast)
  show ?thesis
  proof (rule untouched_touch [OF assms])
    show "db_touch k' (db w) (db (snd (CancelBroadcast k' w)))"
      using t by (simp add: touch_def)
    show "log_touch k' (log w) (log (snd (CancelBroadcast k' w)))"
      using t by (simp add: touch_def)
    show "k \<noteq> k'" using False by simp
    show "k \<notin> fst ` set (goroutines (snd (CancelBroadcast k' w)))"
      using assms by (simp add: untouched_def)
    show "map_of (active (snd (CancelBroadcast k' w))) k = None"
      using assms by (simp add: untouched_def)
  qed
qed

lemma untouched_run:
  assumes "untouched k w" and "goroutines w = before @ (k', recipients) # rest"
  shows "untouched k (executeBroadcast env k' recipients (w\<lparr>goroutines := before @ rest\<rparr>))"
proof -
  define v where "v = w\<lparr>goroutines := before @ rest\<rparr>"
  have ne: "k \<noteq> k'"
    using assms by (auto simp: untouched_def image_iff)
  have gv: "k \<notin> fst ` set (goroutines v)"
    using assms by (auto simp: untouched_def v_def image_iff)
  have uv: "untouched k v"
    using assms(1) gv unfolding untouched_def by (simp add: v_def)
  show ?thesis
  proof (cases "broadcast_messages (db v) k'")
    case None
    then show ?thesis
      using uv by (simp add: executeBroadcast_None v_def [symmetric])
  next
    case (Some row)
    with uv have i: "BroadcastMessage.ID row = k'"
      by (simp add: untouched_def)
    note e = executeBroadcast_effect [OF Some i, of env recipients]
    have a: "map_of (active (executeBroadcast env k' recipients v)) k = None"
      using ne uv by (simp add: e(4) delete_conv' untouched_def)
    have g: "k \<notin> fst ` set (goroutines (executeBroadcast env k' recipients v))"
      using gv by (simp add: e(3))
    show ?thesis
      unfolding v_def [symmetric] using uv e(1) e(2) ne g a by (rule untouched_touch)
  qed
qed

lemma untouched_step: "step w w' \<Longrightarrow> untouched k w \<Longrightarrow> untouched k w'"
  by (induction rule: step.induct) (auto intro: untouched_create untouched_cancel untouched_run)

lemma untouched_steps: "step\<^sup>*\<^sup>* w w' \<Longrightarrow> untouched k w \<Longrightarrow> untouched k w'"
  by (induction rule: rtranclp_induct) (auto intro: untouched_step)

lemma scheduled_untouched:
  assumes "consistent w"
    and "ScheduledAt req \<noteq> []"
    and "fst (CreateBroadcast req w) = (resp, None)"
  shows "Success resp \<and> untouched (BroadcastID resp) (snd (CreateBroadcast req w))"
proof -
  have n: "snd (fst (CreateBroadcast req w)) = None" and r: "resp = fst (fst (CreateBroadcast req w))"
    using assms(3) by simp_all
  from CreateBroadcast_success [OF n] assms(2) obtain msg where
    d: "db (snd (CreateBroadcast req w)) =
       (db w)\<lparr>broadcast_messages := (broadcast_messages (db w))(next_id (db w) \<mapsto> msg),
              next_id := Suc (next_id (db w))\<rparr>"
    and m: "BroadcastMessage.ID msg = next_id (db w)" "BroadcastMessage.Status msg = ''pending''"
    and g: "goroutines (snd (CreateBroadcast req w)) = goroutines w"
    and a: "active (snd (CreateBroadcast req w)) = active w"
    and l: "log (snd (CreateBroadcast req w)) = log w"
    and b: "BroadcastID resp = next_id (db w)" "Success resp"
    unfolding r by auto
  have g': "next_id (db w) \<notin> fst ` set (goroutines w)"
    using assms(1) by (auto simp: consistent_def)
  have a': "map_of (active w) (next_id (db w)) = None"
    using assms(1) by (force simp: consistent_def map_of_eq_None_iff)
  have l': "attempts (next_id (db w)) (log w) = []"
    using assms(1) by (intro attempts_other) (auto simp: consistent_def)
  have k: "\<forall>k row. broadcast_messages (db w) k = Some row \<longrightarrow> BroadcastMessage.ID row = k"
    using assms(1) by (auto simp: consistent_def)
  show ?thesis
    unfolding untouched_def d g a l b using m g' a' l' k b(2) by simp
qed

lemma consistent_touch:
  assumes "consistent w"
    and "db_touch K (db w) (db w')"
    and "log_touch K (log w) (log w')"
    and "K < next_id (db w)"
    and "set (goroutines w') \<subseteq> set (goroutines w)"
    and "set (active w') \<subseteq> set (active w)"
  shows "consistent w'"
proof -
  have n: "next_id (db w') = next_id (db w)"
    using assms(2) by (simp add: db_touch_def)
  have 1: "\<forall>k row. broadcast_messages (db w') k = Some row \<longrightarrow>
        k < next_id (db w') \<and> BroadcastMessage.ID row = k"
  proof (intro allI impI)
    fix k row
    assume r: "broadcast_messages (db w') k = Some row"
    have "broadcast_messages (db w) k \<noteq> None"
      using db_touch_dom [OF assms(2), of k] r by simp
    then have "k < next_id (db w)"
      using assms(1) by (auto simp: consistent_def)
    moreover have "\<forall>k row. broadcast_messages (db w') k = Some row \<longrightarrow> BroadcastMessage.ID row = k"
      using assms(2) by (rule db_touch_keyed) (use assms(1) in \<open>simp add: consistent_def\<close>)
    ultimately show "k < next_id (db w') \<and> BroadcastMessage.ID row = k"
      using r n by simp
  qed
  have 2: "\<forall>x \<in> set (goroutines w'). fst x < next_id (db w')"
    using assms(1,5) n by (auto simp: consistent_def)
  have 3: "\<forall>x \<in> set (active w'). fst x < next_id (db w')"
    using assms(1,6) n by (auto simp: consistent_def)
  have 4: "\<forall>e \<in> set (log w'). event_job e < next_id (db w')"
    using assms(1,3,4) n by (auto simp: consistent_def log_touch_def)
  from 1 2 3 4 show ?thesis
    unfolding consistent_def by blast
qed

lemma consistent_create:
  assumes "consistent w"
  shows "consistent (snd (CreateBroadcast req w))"
proof (cases "snd (fst (CreateBroadcast req w))")
  case (Some e)
  then have "snd (CreateBroadcast req w) = w"
    by (intro CreateBroadcast_error) simp
  with assms show ?thesis by simp
next
  case None
  from CreateBroadcast_success [OF None] obtain msg recipients where
    d: "db (snd (CreateBroadcast req w)) =
       (db w)\<lparr>broadcast_messages := (broadcast_messages (db w))(next_id (db w) \<mapsto> msg),
              next_id := Suc (next_id (db w))\<rparr>"
    and m: "BroadcastMessage.ID msg = next_id (db w)"
    and g: "goroutines (snd (CreateBroadcast req w)) =
         goroutines w @ (if ScheduledAt req = [] then [(next_id (db w), recipients)] else [])"
    and a: "active (snd (CreateBroadcast req w)) = active w"
    and l: "log (snd (CreateBroadcast req w)) = log w"
    by blast
  from assms show ?thesis
    unfolding consistent_def d g a l using m by (auto simp: less_Suc_eq)
qed

lemma consistent_cancel:
  assumes "consistent w"
  shows "consistent (snd (CancelBroadcast k w))"
proof (cases "map_of (active w) k")
  case None
  with assms show ?thesis by (simp add: CancelBroadcast_def)
next
  case (Some p)
  then have "(k, p) \<in> set (active w)" by (rule map_of_SomeD)
  with assms have k: "k < next_id (db w)" by (auto simp: consistent_def)
  have t: "touch k w (snd (CancelBroadcast k w))" by (rule touch_CancelBroadcast)
  show ?thesis
  proof (rule consistent_touch [OF assms])
    show "db_touch k (db w) (db (snd (CancelBroadcast k w)))"
      using t by (simp add: touch_def)
    show "log_touch k (log w) (log (snd (CancelBroadcast k w)))"
      using t by (simp add: touch_def)
    show "k < next_id (db w)" by (rule k)
    show "set (goroutines (snd (CancelBroadcast k w))) \<subseteq> set (goroutines w)" by simp
    show "set (active (snd (CancelBroadcast k w))) \<subseteq> set (active w)" by simp
  qed
qed

lemma consistent_run:
  assumes "consistent w" and "goroutines w = before @ (k, recipients) # rest"
  shows "consistent (executeBroadcast env k recipients (w\<lparr>goroutines := before @ rest\<rparr>))"
proof -
  define v where "v = w\<lparr>goroutines := before @ rest\<rparr>"
  have k: "k < next_id (db v)"
    using assms by (auto simp: consistent_def v_def)
  have cv: "consistent v"
    using assms unfolding consistent_def by (auto simp: v_def)
  show ?thesis
  proof (cases "broadcast_messages (db v) k")
    case None
    then show ?thesis
      using cv by (simp add: executeBroadcast_None v_def [symmetric])
  next
    case (Some row)
    with cv have i: "BroadcastMessage.ID row = k"
      by (simp add: consistent_def)
    note e = executeBroadcast_effect [OF Some i, of env recipients]
    have a: "set (active (executeBroadcast env k recipients v)) \<subseteq> set (active v)"
      by (auto simp: e(4) AList.delete_eq)
    show ?thesis
      unfolding v_def [symmetric] using cv e(1) e(2) k
      by (rule consistent_touch) (simp_all add: e(3) a)
  qed
qed

lemma consistent_step: "step w w' \<Longrightarrow> consistent w \<Longrightarrow> consistent w'"
  by (induction rule: step.induct) (auto intro: consistent_create consistent_cancel consistent_run)

lemma consistent_world0: "consistent world0"
  by (simp add: consistent_def examples)

text \<open>
  C8. A valid request with a non-empty \<open>ScheduledAt\<close> is answered with success and the
  id of a new row that is persisted as \<open>pending\<close>; no goroutine is started for it, so
  whatever the manager does afterwards, the row stays \<open>pending\<close>, the job is never
  registered as active and no recipient of it is ever attempted.
\<close>

theorem scheduled_broadcast_stays_pending:
  assumes "consistent w"
    and "ScheduledAt req \<noteq> []"
    and "fst (CreateBroadcast req w) = (resp, None)"
    and "step\<^sup>*\<^sup>* (snd (CreateBroadcast req w)) w'"
  shows "Success resp
     \<and> (\<exists>row. broadcast_messages (db w') (BroadcastID resp) = Some row
            \<and> BroadcastMessage.Status row = ''pending'')
     \<and> BroadcastID resp \<notin> fst ` set (goroutines w')
     \<and> map_of (active w') (BroadcastID resp) = None
     \<and> attempts (BroadcastID resp) (log w') = []"
proof -
  from scheduled_untouched [OF assms(1,2,3)]
  have s: "Success resp" and u: "untouched (BroadcastID resp) (snd (CreateBroadcast req w))"
    by simp_all
  from untouched_steps [OF assms(4) u] s show ?thesis
    by (simp add: untouched_def)
qed

theorem scheduled_broadcast_stays_pending_witness:
  "ScheduledAt (request 1 ''2030-01-01T00:00:00Z'') \<noteq> []
   \<and> fst (CreateBroadcast (request 1 ''2030-01-01T00:00:00Z'') world0) =
       (\<lparr>Success = True, BroadcastID = 1, Message = ''Broadcast created successfully'',
         TotalRecipients = 3, EstimatedTime = 3000000000\<rparr>, None)
   \<and> map_option BroadcastMessage.Status (broadcast_messages (db world_later) 1) = Some ''pending''
   \<and> map_option BroadcastMessage.Status (broadcast_messages (db world_later) 2) = Some ''completed''
   \<and> attempts 1 (log world_later) = []
   \<and> attempts 2 (log world_later) = [(''A'', True), (''B'', True), (''C'', True)]"
proof -
  let ?req = "request 1 ''2030-01-01T00:00:00Z''"
  let ?resp = "\<lparr>Success = True, BroadcastID = 1, Message = ''Broadcast created successfully'',
         TotalRecipients = 3, EstimatedTime = 3000000000\<rparr>"
  define wa where "wa = snd (CreateBroadcast (request 1 []) world_scheduled)"
  define wb where "wb = executeBroadcast env_ok 2 abc (wa\<lparr>goroutines := [] @ []\<rparr>)"
  have s: "ScheduledAt ?req \<noteq> []"
    by (simp add: request_def)
  have f: "fst (CreateBroadcast ?req world0) = (?resp, None)"
    by code_simp
  have g: "goroutines wa = [] @ (2, abc) # []"
    unfolding wa_def by code_simp
  have 1: "step world_scheduled wa"
    unfolding wa_def by (rule step.create)
  have 2: "step wa wb"
    unfolding wb_def using g by (rule step.run)
  have 3: "step wb world_later"
    unfolding world_later_def wb_def wa_def using step.cancel [of wb 1]
    by (simp add: wb_def wa_def)
  from 1 2 3 have st: "step\<^sup>*\<^sup>* (snd (CreateBroadcast ?req world0)) world_later"
    unfolding world_scheduled_def by auto
  have o: "map_option BroadcastMessage.Status (broadcast_messages (db world_later) 2) = Some ''completed''"
      "attempts 2 (log world_later) = [(''A'', True), (''B'', True), (''C'', True)]"
    by code_simp+
  from scheduled_broadcast_stays_pending [OF consistent_world0 s f st]
  have p: "\<exists>row. broadcast_messages (db world_later) (BroadcastID ?resp) = Some row
            \<and> BroadcastMessage.Status row = ''pending''"
    and a: "attempts (BroadcastID ?resp) (log world_later) = []"
    by blast+
  from p have p': "map_option BroadcastMessage.Status (broadcast_messages (db world_later) 1)
      = Some ''pending''"
    by auto
  from a have a': "attempts 1 (log world_later) = []"
    by simp
  from s f p' o(1) a' o(2) show ?thesis
    by (intro conjI)
qed

subsection \<open>Counters and final status of every run\<close>

text \<open>
  The live counters at every point of a run, and the row that \<open>executeBroadcast\<close>
  leaves behind: the counters add up to the number of recipients attempted so far,
  which never exceeds the number of recipients; the final status is \<open>completed\<close> in
  every run, whether a cancellation has been observed or not.
\<close>

lemma sendToRecipients_loop_after:
  "sendToRecipients env job w =
     snd (loop_after (length (BroadcastJob.Recipients (heap w job))) env job w)"
  by (simp add: sendToRecipients_def loop_after_def Let_def)

lemma length_attempts_iteration:
  "length (attempts (BroadcastJob.ID (heap w job)) (log (snd (iteration env job n i r fr w)))) =
     Suc (length (attempts (BroadcastJob.ID (heap w job)) (log w)))"
  by (simp add: iteration_attempts)

lemma range_counters:
  assumes "range_Recipients env job n i rs fr w = (fr', w')"
  shows "BroadcastJob.SentCount (heap w job) \<le> BroadcastJob.SentCount (heap w' job)
     \<and> BroadcastJob.FailedCount (heap w job) \<le> BroadcastJob.FailedCount (heap w' job)
     \<and> BroadcastJob.SentCount (heap w' job) + BroadcastJob.FailedCount (heap w' job)
         = BroadcastJob.SentCount (heap w job) + BroadcastJob.FailedCount (heap w job)
           + (int (length (attempts (BroadcastJob.ID (heap w job)) (log w')))
              - int (length (attempts (BroadcastJob.ID (heap w job)) (log w))))
     \<and> length (attempts (BroadcastJob.ID (heap w job)) (log w'))
         \<le> length (attempts (BroadcastJob.ID (heap w job)) (log w)) + length rs"
  using assms
proof (induction rs arbitrary: i fr w)
  case Nil
  then show ?case by simp
next
  case (Cons r rs)
  define w0 where "w0 = interleave env job i w"
  have l0: "log w0 = log w" by (simp add: w0_def)
  have c0: "BroadcastJob.SentCount (heap w0 job) = BroadcastJob.SentCount (heap w job)"
      "BroadcastJob.FailedCount (heap w0 job) = BroadcastJob.FailedCount (heap w job)"
    by (simp_all add: w0_def interleave_def CancelBroadcast_def Let_def split: option.splits)
  have id0: "BroadcastJob.ID (heap w0 job) = BroadcastJob.ID (heap w job)"
    using interleave_same_message [of w job env job i] by (simp add: same_message_def w0_def)
  show ?case
  proof (cases "cancel (heap w0 job)")
    case (Some v)
    with Cons.prems have "w' = w0\<lparr>heap := (heap w0)(job := (heap w0 job)\<lparr>cancel := None\<rparr>)\<rparr>"
      by (simp add: w0_def Let_def)
    then show ?thesis by (simp add: l0 c0)
  next
    case None
    define fr2 where "fr2 = fst (iteration env job n i r fr w0)"
    define w4 where "w4 = snd (iteration env job n i r fr w0)"
    from Cons.prems None have rest: "range_Recipients env job n (Suc i) rs fr2 w4 = (fr', w')"
      by (simp add: w0_def fr2_def w4_def case_prod_beta Let_def)
    have id4: "BroadcastJob.ID (heap w4 job) = BroadcastJob.ID (heap w job)"
      using iteration_same_message [of w0 job env job n i r fr]
      by (simp add: same_message_def w4_def id0)
    have a4: "length (attempts (BroadcastJob.ID (heap w job)) (log w4)) =
        Suc (length (attempts (BroadcastJob.ID (heap w job)) (log w)))"
      using length_attempts_iteration [of w0 job env n i r fr]
      by (simp add: w4_def id0 l0)
    have h4: "BroadcastJob.SentCount (heap w job) \<le> BroadcastJob.SentCount (heap w4 job)
       \<and> BroadcastJob.FailedCount (heap w job) \<le> BroadcastJob.FailedCount (heap w4 job)
       \<and> BroadcastJob.SentCount (heap w4 job) + BroadcastJob.FailedCount (heap w4 job)
           = BroadcastJob.SentCount (heap w job) + BroadcastJob.FailedCount (heap w job) + 1"
      by (simp add: w4_def iteration_heap c0)
    from Cons.IH [OF rest] h4 show ?thesis
      unfolding id4 a4 by simp
  qed
qed

lemma live_counters_bounded:
  assumes "executeBroadcast_begin k recipients w = Some (job, msg, w3)"
  shows "0 \<le> BroadcastJob.SentCount (heap (snd (loop_after m env job w3)) job)
     \<and> 0 \<le> BroadcastJob.FailedCount (heap (snd (loop_after m env job w3)) job)
     \<and> BroadcastJob.SentCount (heap (snd (loop_after m env job w3)) job)
         + BroadcastJob.FailedCount (heap (snd (loop_after m env job w3)) job)
         = int (length (attempts (BroadcastMessage.ID msg) (log (snd (loop_after m env job w3)))))
           - int (length (attempts (BroadcastMessage.ID msg) (log w)))
     \<and> BroadcastJob.SentCount (heap (snd (loop_after m env job w3)) job)
         + BroadcastJob.FailedCount (heap (snd (loop_after m env job w3)) job)
         \<le> BroadcastJob.TotalRecipients (heap (snd (loop_after m env job w3)) job)"
proof -
  note b = begin_facts [OF assms]
  define res where "res = loop_after m env job w3"
  have r: "range_Recipients env job (length (map JID recipients)) 0 (take m (map JID recipients))
             \<lparr>sentInWindow = 0, windowStart = clock w3\<rparr> w3 = (fst res, snd res)"
    by (simp add: res_def loop_after_def b(2) Let_def)
  have t: "BroadcastJob.TotalRecipients (heap (snd res) job) = int (length recipients)"
    using range_same_message [of w3 job env "length (map JID recipients)" 0
        "take m (map JID recipients)" "\<lparr>sentInWindow = 0, windowStart = clock w3\<rparr>"] b(6)
    by (simp add: res_def loop_after_def b(2) Let_def same_message_def)
  from range_counters [OF r] t show ?thesis
    unfolding res_def [symmetric] b by auto
qed

lemma executeBroadcast_always_completed:
  assumes "executeBroadcast_begin k recipients w = Some (job, msg, w3)"
  shows "\<exists>row. broadcast_messages (db (executeBroadcast env k recipients w)) (BroadcastMessage.ID msg)
              = Some row
           \<and> BroadcastMessage.Status row = ''completed''
           \<and> BroadcastMessage.SentCount row + BroadcastMessage.FailedCount row
               = int (length (attempts (BroadcastMessage.ID msg)
                                (log (executeBroadcast env k recipients w))))
                 - int (length (attempts (BroadcastMessage.ID msg) (log w)))
           \<and> BroadcastMessage.SentCount row + BroadcastMessage.FailedCount row
               \<le> int (length recipients)"
proof -
  note b = begin_facts [OF assms]
  define res where "res = loop_after (length recipients) env job w3"
  define w5 where "w5 = interleave env job (length recipients) (snd res)"
  have s: "sendToRecipients env job w3 = snd res"
    by (simp add: sendToRecipients_loop_after res_def b(2))
  have e: "executeBroadcast env k recipients w = executeBroadcast_end k job msg w5"
    by (simp add: executeBroadcast_def assms s w5_def Let_def)
  have c5: "BroadcastJob.SentCount (heap w5 job) = BroadcastJob.SentCount (heap (snd res) job)"
      "BroadcastJob.FailedCount (heap w5 job) = BroadcastJob.FailedCount (heap (snd res) job)"
    by (simp_all add: w5_def interleave_def CancelBroadcast_def Let_def split: option.splits)
  have t: "BroadcastJob.TotalRecipients (heap (snd res) job) = int (length recipients)"
    using range_same_message [of w3 job env "length (map JID recipients)" 0
        "take (length recipients) (map JID recipients)" "\<lparr>sentInWindow = 0, windowStart = clock w3\<rparr>"] b(6)
    by (simp add: res_def loop_after_def b(2) Let_def same_message_def)
  have l5: "log w5 = log (snd res)"
    by (simp add: w5_def)
  from live_counters_bounded [OF assms, of "length recipients" env] show ?thesis
    unfolding e res_def [symmetric]
    by (simp add: executeBroadcast_end_def Save_def Let_def c5 t l5)
qed

text \<open>
  A run that is cancelled when \<open>m\<close> of its recipients have been attempted: the loop
  stops there, the final counters add up to \<open>m\<close>, and the final status is
  \<open>completed\<close>.
\<close>

lemma iteration_cancel:
  "cancel (heap (snd (iteration env job n i r fr w)) job) = cancel (heap w job)"
  by (simp add: iteration_heap)

lemma range_cancel_at:
  assumes "cancel_requested env (i + m)"
    and "\<forall>x. i \<le> x \<and> x < i + m \<longrightarrow> \<not> cancel_requested env x"
    and "m < length rs"
    and "cancel (heap w job) = None"
    and "map_of (active w) (BroadcastJob.ID (heap w job)) = Some job"
  shows "attempts (BroadcastJob.ID (heap w job)) (log (snd (range_Recipients env job n i rs fr w))) =
           attempts (BroadcastJob.ID (heap w job)) (log w)
           @ zip (take m rs) (outcomes env (heap w job) i (take m rs))"
  using assms
proof (induction m arbitrary: i rs fr w)
  case 0
  then obtain r rest where rs: "rs = r # rest" by (cases rs) auto
  have c: "cancel (heap (interleave env job i w) job) = Some True"
    using 0 by (simp add: interleave_def CancelBroadcast_def Let_def)
  show ?case
    unfolding rs by (simp add: Let_def c)
next
  case (Suc m)
  then obtain r rest where rs: "rs = r # rest" by (cases rs) auto
  have il: "interleave env job i w = w"
    using Suc.prems(2) by (simp add: interleave_def)
  define fr2 where "fr2 = fst (iteration env job n i r fr w)"
  define w4 where "w4 = snd (iteration env job n i r fr w)"
  have e: "range_Recipients env job n i (r # rest) fr w
      = range_Recipients env job n (Suc i) rest fr2 w4"
    using Suc.prems(4) by (simp add: il Let_def case_prod_beta fr2_def w4_def)
  have sm: "same_message (heap w job) (heap w4 job)"
    unfolding w4_def by (rule iteration_same_message)
  then have id4: "BroadcastJob.ID (heap w4 job) = BroadcastJob.ID (heap w job)"
    by (simp add: same_message_def)
  have o4: "outcomes env (heap w4 job) (Suc i) (take m rest)
      = outcomes env (heap w job) (Suc i) (take m rest)"
    using sm by (intro outcomes_cong) (simp_all add: same_message_def)
  have a4: "attempts (BroadcastJob.ID (heap w job)) (log w4) =
      attempts (BroadcastJob.ID (heap w job)) (log w) @ [(r, fst (send_message env i (heap w job) r))]"
    unfolding w4_def by (rule iteration_attempts)
  have p1: "cancel_requested env (Suc i + m)" using Suc.prems(1) by simp
  have p2: "\<forall>x. Suc i \<le> x \<and> x < Suc i + m \<longrightarrow> \<not> cancel_requested env x"
    using Suc.prems(2) by simp
  have p3: "m < length rest" using Suc.prems(3) rs by simp
  have p4: "cancel (heap w4 job) = None"
    using Suc.prems(4) by (simp add: w4_def iteration_cancel)
  have p5: "map_of (active w4) (BroadcastJob.ID (heap w4 job)) = Some job"
    using Suc.prems(5) by (simp add: id4) (simp add: w4_def)
  from Suc.IH [OF p1 p2 p3 p4 p5, of fr2] show ?case
    unfolding rs e id4 o4 a4 by simp
qed

lemma cancelled_run:
  assumes "executeBroadcast_begin k recipients w = Some (job, msg, w3)"
    and "BroadcastMessage.ID msg = k"
    and "cancel_requested env m"
    and "\<forall>x < m. \<not> cancel_requested env x"
    and "m < length recipients"
  shows "attempts k (log (executeBroadcast env k recipients w)) =
           attempts k (log w)
           @ zip (take m (map JID recipients)) (outcomes env (heap w3 job) 0 (take m (map JID recipients)))"
    and "\<exists>row. broadcast_messages (db (executeBroadcast env k recipients w)) k = Some row
           \<and> BroadcastMessage.Status row = ''completed''
           \<and> BroadcastMessage.SentCount row + BroadcastMessage.FailedCount row = int m"
proof -
  note b = begin_facts [OF assms(1)]
  define w4 where "w4 = sendToRecipients env job w3"
  have a: "map_of (active w3) (BroadcastJob.ID (heap w3 job)) = Some job"
    using b(5,8) assms(2) by simp
  have c: "cancel_requested env (0 + m)" using assms(3) by simp
  have n: "\<forall>x. 0 \<le> x \<and> x < 0 + m \<longrightarrow> \<not> cancel_requested env x" using assms(4) by simp
  have l: "m < length (map JID recipients)" using assms(5) by simp
  have a4: "attempts k (log w4) = attempts k (log w)
           @ zip (take m (map JID recipients)) (outcomes env (heap w3 job) 0 (take m (map JID recipients)))"
    using range_cancel_at [OF c n l b(1) a, of "length (map JID recipients)"
        "\<lparr>sentInWindow = 0, windowStart = clock w3\<rparr>"]
    by (simp add: w4_def sendToRecipients_def b(2) b(5) b(7) assms(2) Let_def)
  have le: "log (executeBroadcast env k recipients w) = log w4"
    by (simp add: executeBroadcast_def assms(1) w4_def executeBroadcast_end_def Let_def)
  show 1: "attempts k (log (executeBroadcast env k recipients w)) =
           attempts k (log w)
           @ zip (take m (map JID recipients)) (outcomes env (heap w3 job) 0 (take m (map JID recipients)))"
    unfolding le by (rule a4)
  have len: "length (outcomes env j i rs) = length rs" for j i rs
    by (induction rs arbitrary: i) simp_all
  from executeBroadcast_always_completed [OF assms(1), of env]
  show "\<exists>row. broadcast_messages (db (executeBroadcast env k recipients w)) k = Some row
           \<and> BroadcastMessage.Status row = ''completed''
           \<and> BroadcastMessage.SentCount row + BroadcastMessage.FailedCount row = int m"
    unfolding assms(2) 1 using assms(5) by (auto simp: len)
qed

end
